theory Spec2Isabelle
  imports Complex_Main "HOL-Library.Log_Nat"
begin

section \<open>JavaScript numbers\<close>

text \<open>
  Every number the calculator computes has the TypeScript type \<open>number\<close>, an IEEE 754
  double. A finite double other than zero is modelled by the rational it denotes,
  \<open>Fin 0\<close> is the zero with positive sign and \<open>NegZero\<close> the one with negative sign;
  the infinities and \<open>NaN\<close> are values of their own. NaNs are not told apart.
\<close>

datatype jsnum = Fin rat | NegZero | PosInf | NegInf | NaN

text \<open>Rounding to the nearest integer, a tie to the even one.\<close>

definition rne :: "rat \<Rightarrow> int" where
  "rne x =
     (let f = \<lfloor>x\<rfloor>; r = x - of_int f
      in if r < 1 / 2 then f else if 1 / 2 < r then f + 1 else if even f then f else f + 1)"

text \<open>The binary exponent of a positive rational: \<open>2 ^ e \<le> q < 2 ^ (e + 1)\<close>.\<close>

definition ilog2 :: "rat \<Rightarrow> int" where
  "ilog2 q = (if 1 \<le> q then bitlen \<lfloor>q\<rfloor> - 1 else - bitlen (\<lceil>1 / q\<rceil> - 1))"

text \<open>
  The double of an exact result, in the default rounding mode (to nearest, ties to
  even): 53 significant bits above the smallest normal exponent \<open>- 1022\<close>, multiples
  of \<open>2 ^ - 1074\<close> below it, an infinity from \<open>2 ^ 1024\<close> on, and a zero that keeps
  the sign when the result rounds to nothing.
\<close>

definition round64 :: "rat \<Rightarrow> jsnum" where
  "round64 q =
     (if q = 0 then Fin 0
      else
        let a = \<bar>q\<bar>;
            e = max (ilog2 a) (- 1022);
            u = 2 powi (e - 52);
            r = of_int (rne (a / u)) * u
        in if 2 ^ 1024 \<le> r then (if 0 < q then PosInf else NegInf)
           else if r = 0 then (if 0 < q then Fin 0 else NegZero)
           else Fin (if 0 < q then r else - r))"

fun is_neg :: "jsnum \<Rightarrow> bool" where
  "is_neg (Fin q) = (q < 0)"
| "is_neg NegZero = True"
| "is_neg NegInf = True"
| "is_neg x = False"

fun is_zero :: "jsnum \<Rightarrow> bool" where
  "is_zero (Fin q) = (q = 0)"
| "is_zero NegZero = True"
| "is_zero x = False"

fun is_inf :: "jsnum \<Rightarrow> bool" where
  "is_inf PosInf = True"
| "is_inf NegInf = True"
| "is_inf x = False"

fun val :: "jsnum \<Rightarrow> rat" where
  "val (Fin q) = q"
| "val x = 0"

definition signed_zero :: "bool \<Rightarrow> jsnum" where
  "signed_zero neg = (if neg then NegZero else Fin 0)"

definition signed_inf :: "bool \<Rightarrow> jsnum" where
  "signed_inf neg = (if neg then NegInf else PosInf)"

text \<open>
  The operators \<open>/\<close>, \<open>*\<close>, \<open>+\<close> and \<open>-\<close> on numbers: the special cases of
  IEEE 754, and otherwise the exact result rounded.
\<close>

definition js_div :: "jsnum \<Rightarrow> jsnum \<Rightarrow> jsnum" where
  "js_div x y =
     (if x = NaN \<or> y = NaN then NaN
      else if is_inf x then (if is_inf y then NaN else signed_inf (is_neg x \<noteq> is_neg y))
      else if is_inf y then signed_zero (is_neg x \<noteq> is_neg y)
      else if is_zero y then (if is_zero x then NaN else signed_inf (is_neg x \<noteq> is_neg y))
      else if is_zero x then signed_zero (is_neg x \<noteq> is_neg y)
      else round64 (val x / val y))"

definition js_mul :: "jsnum \<Rightarrow> jsnum \<Rightarrow> jsnum" where
  "js_mul x y =
     (if x = NaN \<or> y = NaN then NaN
      else if is_inf x \<or> is_inf y
        then (if is_zero x \<or> is_zero y then NaN else signed_inf (is_neg x \<noteq> is_neg y))
      else if is_zero x \<or> is_zero y then signed_zero (is_neg x \<noteq> is_neg y)
      else round64 (val x * val y))"

definition js_add :: "jsnum \<Rightarrow> jsnum \<Rightarrow> jsnum" where
  "js_add x y =
     (if x = NaN \<or> y = NaN then NaN
      else if is_inf x then (if is_inf y \<and> is_neg x \<noteq> is_neg y then NaN else x)
      else if is_inf y then y
      else if is_zero x then (if is_zero y then signed_zero (is_neg x \<and> is_neg y) else y)
      else if is_zero y then x
      else round64 (val x + val y))"

fun js_neg :: "jsnum \<Rightarrow> jsnum" where
  "js_neg (Fin a) = (if a = 0 then NegZero else Fin (- a))"
| "js_neg NegZero = Fin 0"
| "js_neg PosInf = NegInf"
| "js_neg NegInf = PosInf"
| "js_neg NaN = NaN"

definition js_sub :: "jsnum \<Rightarrow> jsnum \<Rightarrow> jsnum" where
  "js_sub x y = js_add x (js_neg y)"

text \<open>
  \<open>Math.floor\<close>: zeros and the non-finite values are returned as they are; the floor
  of a double is a double.
\<close>

fun js_floor :: "jsnum \<Rightarrow> jsnum" where
  "js_floor (Fin a) = Fin (of_int \<lfloor>a\<rfloor>)"
| "js_floor x = x"

text \<open>Truthiness of a number in a condition: both zeros and \<open>NaN\<close> are falsy.\<close>

fun truthy :: "jsnum \<Rightarrow> bool" where
  "truthy (Fin a) = (a \<noteq> 0)"
| "truthy NegZero = False"
| "truthy NaN = False"
| "truthy x = True"

text \<open>\<open>x >= 0\<close>.\<close>

fun js_nonneg :: "jsnum \<Rightarrow> bool" where
  "js_nonneg (Fin a) = (0 \<le> a)"
| "js_nonneg NegZero = True"
| "js_nonneg PosInf = True"
| "js_nonneg x = False"

text \<open>\<open>Number.isInteger\<close>.\<close>

fun js_is_integer :: "jsnum \<Rightarrow> bool" where
  "js_is_integer (Fin q) = (of_int \<lfloor>q\<rfloor> = q)"
| "js_is_integer NegZero = True"
| "js_is_integer x = False"

text \<open>
  The numbers the calculator is given (prices and downpayments in minor units, the
  counts of a schedule) are integers; \<open>num\<close> is the \<open>number\<close> of an integer. Every
  integer of magnitude up to \<open>2 ^ 53\<close> is a double.
\<close>

definition num :: "int \<Rightarrow> jsnum" where
  "num i = Fin (of_int i)"

section \<open>Data model\<close>

text \<open>
  Modelled from the spec: the interval enumeration of \<open>schedules.ts\<close> is not among the
  sources; the spec (section 3) lists day, week, month and year.
\<close>

datatype interval = Day | Week | Month | Year

text \<open>
  Modelled from the spec: the \<open>Schedule\<close> type of \<open>schedules.ts\<close> is not among the
  sources; the fields are those of section 3 of the spec, under the names the service
  reads them by, the downpayment in minor units (an integer) and the counts integers.
  The start-date policy is only handed on to \<open>getNextStartDate\<close>, so its type is left
  as the parameter \<open>'p\<close>.
\<close>

record 'p schedule =
  schedule_name :: string
  billingInterval :: interval
  billingCount :: int
  durationInterval :: interval
  durationCount :: int
  schedule_downpayment :: int
  schedule_startDate :: 'p

text \<open>A \<open>Date\<close> is its time value, the milliseconds since the epoch.\<close>

type_synonym date = int

text \<open>An \<open>ID\<close> of the framework is \<open>string | number\<close>.\<close>

datatype ID = IdString string | IdNumber int

text \<open>An id in a condition: the empty string and \<open>0\<close> are falsy.\<close>

fun truthy_id :: "ID \<Rightarrow> bool" where
  "truthy_id (IdString s) = (s \<noteq> [])"
| "truthy_id (IdNumber n) = (n \<noteq> 0)"

text \<open>
  Modelled from the spec: the generated GraphQL types are not among the sources; by
  section 3 of the spec the input overrides the downpayment (money in minor units, an
  integer), the start date and the variant id. The service takes it as
  \<open>Partial<StripeSubscriptionPricingInput>\<close>: every field may be absent (\<open>None\<close>
  stands for \<open>undefined\<close> and \<open>null\<close>).
\<close>

record pricing_input =
  productVariantId :: "ID option"
  input_startDate :: "date option"
  input_downpayment :: "int option"

text \<open>
  The fields of \<open>VariantWithSubscriptionFields\<close> that the service reads;
  \<open>subscriptionSchedule\<close> is the custom field \<open>customFields.subscriptionSchedule\<close>.
\<close>

record variant =
  variant_id :: ID
  variant_name :: string
  price :: int
  subscriptionSchedule :: "string option"

text \<open>\<open>StripeSubscriptionPricing\<close>, the result of the calculator.\<close>

record pricing =
  downpayment :: jsnum
  totalProratedAmount :: jsnum
  proratedDays :: jsnum
  dayRate :: jsnum
  recurringPrice :: jsnum
  interval :: interval
  intervalCount :: jsnum
  amountDueNow :: jsnum
  subscriptionStartDate :: date

text \<open>
  The three helpers imported from \<open>util.ts\<close>, which is not among the sources, are
  parameters of the model.
\<close>

record 'p util =
  getDayRate :: "jsnum \<Rightarrow> interval \<Rightarrow> jsnum \<Rightarrow> jsnum"
  getNextStartDate :: "date \<Rightarrow> interval \<Rightarrow> 'p \<Rightarrow> date"
  getDaysUntilNextStartDate :: "date \<Rightarrow> date \<Rightarrow> jsnum"

text \<open>
  What the calculator reads besides its arguments: the clock (\<open>new Date()\<close>), the
  variant store behind \<open>variantService.findOne\<close>, and the module-level list
  \<open>schedules\<close>.
\<close>

record 'p env =
  now :: date
  findOne :: "ID \<Rightarrow> variant option"
  schedules :: "'p schedule list"

text \<open>
  \<open>OrderStateTransitionError\<close> and \<open>ErrorResult\<close> of the framework, as far as the
  service reads them.
\<close>

record transition_error =
  fromState :: string
  toState :: string
  transition_message :: string

record error_result =
  errorCode :: string
  error_message :: string

text \<open>
  Every \<open>throw\<close> of the service is a constructor, with the values its message is
  built from. \<open>Error_External\<close> is an exception raised inside a call that leaves the
  service (the Stripe client, the channel lookup), \<open>TypeError_NoCustomer\<close> the read of
  \<open>order.customer.emailAddress\<close> on an order without customer.
\<close>

datatype error =
    Error_VariantOrIdNeeded
  | UserInputError_NoVariantFound ID
  | Error_NoScheduleFound "string option"
  | Error_NotImplemented
  | Error_MissingOrderCode
  | Error_MissingChannelToken
  | Error_CannotFindOrder string
  | Error_NoCustomerInWebhook string
  | Error_Transitioning string transition_error
  | Error_AddingPayment string string
  | Error_NoPaymentMethodFound
  | Error_HandlerNotConfigured string string
  | Error_NoApiKeyOrSecret string
  | Error_CustomerDoesNotExist string
  | Error_External string
  | TypeError_NoCustomer

section \<open>The pricing calculator\<close>

text \<open>\<open>getSchedule\<close>: the first schedule whose name is the variant's custom field.\<close>

definition getSchedule :: "'p schedule list \<Rightarrow> variant \<Rightarrow> error + 'p schedule" where
  "getSchedule scheds v =
     (case find (\<lambda>s. Some (schedule_name s) = subscriptionSchedule v) scheds of
        None \<Rightarrow> Inl (Error_NoScheduleFound (subscriptionSchedule v))
      | Some s \<Rightarrow> Inr s)"

text \<open>The local constants of \<open>getSubscriptionPricing\<close>, in the order of the source.\<close>

definition billingsPerDuration :: "'p schedule \<Rightarrow> jsnum" where
  "billingsPerDuration s = js_div (num (durationCount s)) (num (billingCount s))"

definition totalSubscriptionPrice :: "variant \<Rightarrow> 'p schedule \<Rightarrow> jsnum" where
  "totalSubscriptionPrice v s = js_mul (num (price v)) (billingsPerDuration s)"

text \<open>
  \<open>input?.downpayment || input?.downpayment === 0 ? input.downpayment : schedule.downpayment\<close>:
  the condition is the disjunction, the conditional binds weaker.
\<close>

definition effectiveDownpayment :: "pricing_input option \<Rightarrow> 'p schedule \<Rightarrow> jsnum" where
  "effectiveDownpayment input s =
     (case (case input of None \<Rightarrow> None | Some i \<Rightarrow> input_downpayment i) of
        None \<Rightarrow> num (schedule_downpayment s)
      | Some d \<Rightarrow>
          if truthy (num d) \<or> num d = num 0 then num d else num (schedule_downpayment s))"

definition computeRecurringPrice :: "variant \<Rightarrow> jsnum \<Rightarrow> 'p schedule \<Rightarrow> jsnum" where
  "computeRecurringPrice v dp s =
     js_floor (js_sub (num (price v)) (js_div dp (billingsPerDuration s)))"

text \<open>
  \<open>!variant && !input?.productVariantId\<close>, then the lookup by id when no variant was
  passed in.
\<close>

definition resolveVariant ::
  "'p env \<Rightarrow> pricing_input option \<Rightarrow> variant option \<Rightarrow> error + variant" where
  "resolveVariant e input v =
     (case v of
        Some v' \<Rightarrow> Inr v'
      | None \<Rightarrow>
          (case (case input of None \<Rightarrow> None | Some i \<Rightarrow> productVariantId i) of
             None \<Rightarrow> Inl Error_VariantOrIdNeeded
           | Some pid \<Rightarrow>
               if \<not> truthy_id pid then Inl Error_VariantOrIdNeeded
               else (case findOne e pid of
                       None \<Rightarrow> Inl (UserInputError_NoVariantFound pid)
                     | Some v' \<Rightarrow> Inr v')))"

definition getSubscriptionPricing ::
  "'p env \<Rightarrow> 'p util \<Rightarrow> pricing_input option \<Rightarrow> variant option \<Rightarrow> error + pricing" where
  "getSubscriptionPricing e u input v =
     (case resolveVariant e input v of
        Inl err \<Rightarrow> Inl err
      | Inr variant \<Rightarrow>
     (case getSchedule (schedules e) variant of
        Inl err \<Rightarrow> Inl err
      | Inr schedule \<Rightarrow>
          if billingInterval schedule \<noteq> durationInterval schedule
          then Inl Error_NotImplemented
          else
            let dayRate' = getDayRate u (totalSubscriptionPrice variant schedule)
                             (durationInterval schedule) (num (durationCount schedule));
                downpayment' = effectiveDownpayment input schedule;
                recurringPrice' = computeRecurringPrice variant downpayment' schedule;
                now' = now e;
                subscriptionStartDate' =
                  getNextStartDate u now' (billingInterval schedule) (schedule_startDate schedule);
                daysUntilStart =
                  getDaysUntilNextStartDate u
                    (case (case input of None \<Rightarrow> None | Some i \<Rightarrow> input_startDate i) of
                       None \<Rightarrow> now' | Some d \<Rightarrow> d)
                    subscriptionStartDate';
                totalProratedAmount' = js_mul daysUntilStart dayRate'
            in Inr \<lparr> downpayment = downpayment',
                     totalProratedAmount = totalProratedAmount',
                     proratedDays = daysUntilStart,
                     dayRate = dayRate',
                     recurringPrice = recurringPrice',
                     interval = billingInterval schedule,
                     intervalCount = num (billingCount schedule),
                     amountDueNow = js_add downpayment' totalProratedAmount',
                     subscriptionStartDate = subscriptionStartDate' \<rparr>))"

section \<open>Days until the start date\<close>

text \<open>
  Modelled from the spec: \<open>getDaysUntilNextStartDate\<close> of \<open>util.ts\<close> is not among the
  sources. Section 4.1, step 8 of the spec: \<open>daysUntilStart =
  calendarDaysBetween(effectiveInputStartDate or now, subscriptionStartDate)\<close>, the
  number of calendar days from the first date to the second.
\<close>

definition msPerDay :: int where
  "msPerDay = 86400000"

definition calendarDaysBetween :: "date \<Rightarrow> date \<Rightarrow> jsnum" where
  "calendarDaysBetween d1 d2 = Fin (of_int (d2 div msPerDay - d1 div msPerDay))"

section \<open>The world outside the service\<close>

record channel =
  channel_token :: string

text \<open>The \<open>RequestContext\<close> that \<open>createContext\<close> builds.\<close>

record ctx =
  apiType :: string
  isAuthorized :: bool
  authorizedAsOwnerOnly :: bool
  ctx_channel :: channel
  languageCode :: string

record customer =
  customer_id :: ID
  emailAddress :: string

record order_line =
  productVariant :: variant

record order =
  order_id :: ID
  order_code :: string
  order_state :: string
  order_customer :: "customer option"
  order_lines :: "order_line list"
  currencyCode :: string

text \<open>
  \<open>IncomingStripeWebhook\<close>, destructured by the handler into \<open>type\<close> and
  \<open>data.object\<close>; the fields are the ones the handler reads.
\<close>

record event_data =
  event_id :: string
  event_customer :: "string option"
  payment_method :: string
  metadata_orderCode :: "string option"
  metadata_channelToken :: "string option"
  metadata_amount :: string

record webhook =
  event_type :: string
  event_object :: event_data

record job_data =
  action :: string
  job_ctx :: ctx
  job_orderCode :: string
  stripeCustomerId :: string
  stripePaymentMethodId :: string

record payment_input =
  payment_method_code :: string
  setupIntentId :: string
  payment_amount :: string

record payment_method_quote =
  quote_id :: ID
  quote_code :: string

record config_arg =
  arg_name :: string
  arg_value :: string

record payment_method_rec =
  pm_code :: string
  pm_handler_code :: string
  pm_handler_args :: "config_arg list"

text \<open>\<open>new StripeClient(webhookSecret, apiKey, ...)\<close>.\<close>

record stripe_client =
  client_webhookSecret :: string
  client_apiKey :: string

record stripe_handler_config =
  paymentMethodCode :: string
  stripeClient :: stripe_client
  webhookSecret :: string
  downpaymentLabel :: "string option"
  prorationLabel :: "string option"

text \<open>The argument of \<open>stripeClient.createOffSessionSubscription\<close>.\<close>

record sub_request =
  customerId :: string
  productId :: string
  sub_currencyCode :: string
  amount :: jsnum
  sub_interval :: interval
  sub_intervalCount :: jsnum
  paymentMethodId :: string
  sub_startDate :: date
  proration :: bool
  description :: string

text \<open>
  Log lines and order notes are template strings over numbers and records; the model
  keeps the template as a constructor and the interpolated values as its arguments.
\<close>

datatype log_message =
    Log_NotProcessing string
  | Log_SettledPayment string string
  | Log_CreatingSubscriptions pricing
  | Log_CreatedRecurring string
  | Log_CreatedDownpayment string
  | Log_NoApiKeyOrSecret string

datatype order_note =
    Note_NoCustomerId
  | Note_CreatedSubscription string jsnum jsnum interval
  | Note_CreatedDownpayment string jsnum jsnum interval
  | Note_FailedToCreate error

text \<open>
  The state is the sequence of calls by which the service has changed something
  outside itself, oldest first: log lines, queued jobs, order transitions, payments,
  history entries, and the products and subscriptions made at Stripe (with the id
  Stripe gave them). A call that failed leaves no entry.
\<close>

datatype effect =
    LoggerInfo log_message
  | LoggerWarn log_message
  | JobQueueAdd job_data nat
  | TransitionToState ctx ID string
  | AddPaymentToOrder ctx ID payment_input
  | CreateHistoryEntry ctx ID order_note
  | ProductCreated string string
  | SubscriptionCreated sub_request string

type_synonym world = "effect list"

text \<open>
  The injected services, the Stripe client's methods and the plugin options are
  parameters. Each answer may depend on everything done so far, so each takes the
  world. The framework's services answer with their declared result; the calls that
  leave the process may raise.
\<close>

record 'p services =
  svc_now :: "world \<Rightarrow> date"
  svc_variantFindOne :: "world \<Rightarrow> ID \<Rightarrow> variant option"
  svc_schedules :: "'p schedule list"
  svc_util :: "'p util"
  getChannelFromToken :: "world \<Rightarrow> string \<Rightarrow> error + channel"
  findOneByCode :: "world \<Rightarrow> ctx \<Rightarrow> string \<Rightarrow> order option"
  getEligiblePaymentMethods :: "world \<Rightarrow> ctx \<Rightarrow> ID \<Rightarrow> payment_method_quote list"
  paymentMethodFindOne :: "world \<Rightarrow> ctx \<Rightarrow> ID \<Rightarrow> payment_method_rec option"
  handlerCode :: string
  disableWebhookSignatureChecking :: bool
  validateWebhookSignature :: "stripe_client \<Rightarrow> string \<Rightarrow> string option \<Rightarrow> error option"
  transitionToState :: "world \<Rightarrow> ctx \<Rightarrow> ID \<Rightarrow> string \<Rightarrow> transition_error option"
  addPaymentToOrder :: "world \<Rightarrow> ctx \<Rightarrow> ID \<Rightarrow> payment_input \<Rightarrow> error_result option"
  customersRetrieve :: "world \<Rightarrow> stripe_client \<Rightarrow> string \<Rightarrow> error + string option"
  productsCreate :: "world \<Rightarrow> stripe_client \<Rightarrow> string \<Rightarrow> error + string"
  createOffSessionSubscription :: "world \<Rightarrow> stripe_client \<Rightarrow> sub_request \<Rightarrow> error + string"

definition env_of :: "'p services \<Rightarrow> world \<Rightarrow> 'p env" where
  "env_of svc w =
     \<lparr> now = svc_now svc w, findOne = svc_variantFindOne svc w, schedules = svc_schedules svc \<rparr>"

text \<open>A string that may be absent, in a condition: \<open>undefined\<close> and \<open>''\<close> are falsy.\<close>

fun truthy_str :: "string option \<Rightarrow> bool" where
  "truthy_str None = False"
| "truthy_str (Some s) = (s \<noteq> [])"

text \<open>\<open>s.indexOf(sub) > -1\<close>: \<open>sub\<close> occurs in \<open>s\<close>.\<close>

fun contains :: "string \<Rightarrow> string \<Rightarrow> bool" where
  "contains [] sub = (sub = [])"
| "contains (c # cs) sub = (take (length sub) (c # cs) = sub \<or> contains cs sub)"

section \<open>The service's helpers\<close>

definition createContext :: "'p services \<Rightarrow> world \<Rightarrow> string \<Rightarrow> error + ctx" where
  "createContext svc w channelToken =
     (case getChannelFromToken svc w channelToken of
        Inl err \<Rightarrow> Inl err
      | Inr ch \<Rightarrow>
          Inr \<lparr> apiType = ''admin'', isAuthorized = True, authorizedAsOwnerOnly = False,
                ctx_channel = ch, languageCode = ''en'' \<rparr>)"

definition logOrderHistory :: "ctx \<Rightarrow> ID \<Rightarrow> order_note \<Rightarrow> world \<Rightarrow> world" where
  "logOrderHistory c orderId message w = w @ [CreateHistoryEntry c orderId message]"

definition argValue :: "config_arg list \<Rightarrow> string \<Rightarrow> string option" where
  "argValue args n = map_option arg_value (find (\<lambda>a. arg_name a = n) args)"

definition getStripeHandler ::
  "'p services \<Rightarrow> ctx \<Rightarrow> ID \<Rightarrow> world \<Rightarrow> (error + stripe_handler_config) \<times> world" where
  "getStripeHandler svc c orderId w =
     (case find (\<lambda>pm. contains (quote_code pm) ''stripe-subscription'')
             (getEligiblePaymentMethods svc w c orderId) of
        None \<Rightarrow> (Inl Error_NoPaymentMethodFound, w)
      | Some paymentMethodQuote \<Rightarrow>
     (case paymentMethodFindOne svc w c (quote_id paymentMethodQuote) of
        None \<Rightarrow>
          (Inl (Error_HandlerNotConfigured (quote_code paymentMethodQuote) (handlerCode svc)), w)
      | Some paymentMethod \<Rightarrow>
          if pm_handler_code paymentMethod \<noteq> handlerCode svc
          then (Inl (Error_HandlerNotConfigured (quote_code paymentMethodQuote) (handlerCode svc)), w)
          else
            let apiKey = argValue (pm_handler_args paymentMethod) ''apiKey'';
                webhookSecret' = argValue (pm_handler_args paymentMethod) ''webhookSecret''
            in (case (apiKey, webhookSecret') of
                  (Some k, Some s) \<Rightarrow>
                    if k = [] \<or> s = []
                    then (Inl (Error_NoApiKeyOrSecret (pm_code paymentMethod)),
                          w @ [LoggerWarn (Log_NoApiKeyOrSecret (pm_code paymentMethod))])
                    else
                      (Inr \<lparr> paymentMethodCode = pm_code paymentMethod,
                             stripeClient = \<lparr> client_webhookSecret = s, client_apiKey = k \<rparr>,
                             webhookSecret = s,
                             downpaymentLabel =
                               argValue (pm_handler_args paymentMethod) ''downpaymentLabel'',
                             prorationLabel =
                               argValue (pm_handler_args paymentMethod) ''prorationLabel'' \<rparr>, w)
                | _ \<Rightarrow>
                    (Inl (Error_NoApiKeyOrSecret (pm_code paymentMethod)),
                     w @ [LoggerWarn (Log_NoApiKeyOrSecret (pm_code paymentMethod))]))))"

section \<open>The webhook handler\<close>

text \<open>
  \<open>handlePaymentCompleteEvent\<close>. The result is the value or the exception, and the
  world as the handler leaves it.
\<close>

definition handlePaymentCompleteEvent ::
  "'p services \<Rightarrow> webhook \<Rightarrow> string option \<Rightarrow> string \<Rightarrow> world \<Rightarrow> (error + unit) \<times> world" where
  "handlePaymentCompleteEvent svc ev signature rawBodyPayload w =
     (let eventData = event_object ev in
      if event_type ev \<noteq> ''setup_intent.succeeded''
      then (Inr (), w @ [LoggerInfo (Log_NotProcessing (event_type ev))])
      else
     (case metadata_orderCode eventData of
        None \<Rightarrow> (Inl Error_MissingOrderCode, w)
      | Some orderCode \<Rightarrow>
          if orderCode = [] then (Inl Error_MissingOrderCode, w) else
     (case metadata_channelToken eventData of
        None \<Rightarrow> (Inl Error_MissingChannelToken, w)
      | Some channelToken \<Rightarrow>
          if channelToken = [] then (Inl Error_MissingChannelToken, w) else
     (case createContext svc w channelToken of
        Inl err \<Rightarrow> (Inl err, w)
      | Inr c \<Rightarrow>
     (case findOneByCode svc w c orderCode of
        None \<Rightarrow> (Inl (Error_CannotFindOrder orderCode), w)
      | Some order \<Rightarrow>
     (case (if truthy_str (event_customer eventData) then event_customer eventData else None) of
        None \<Rightarrow>
          (Inl (Error_NoCustomerInWebhook (order_code order)),
           logOrderHistory c (order_id order) Note_NoCustomerId w)
      | Some stripeCustomer \<Rightarrow>
     (case getStripeHandler svc c (order_id order) w of
        (Inl err, w1) \<Rightarrow> (Inl err, w1)
      | (Inr handler, w1) \<Rightarrow>
     (case (if disableWebhookSignatureChecking svc then None
            else validateWebhookSignature svc (stripeClient handler) rawBodyPayload signature) of
        Some err \<Rightarrow> (Inl err, w1)
      | None \<Rightarrow>
          let w2 = w1 @ [JobQueueAdd
                     \<lparr> action = ''createSubscriptionsForOrder'', job_ctx = c,
                       job_orderCode = order_code order, stripeCustomerId = stripeCustomer,
                       stripePaymentMethodId = payment_method eventData \<rparr> 1];
              transitioned =
                (if order_state order \<noteq> ''ArrangingPayment''
                 then (case transitionToState svc w2 c (order_id order) ''ArrangingPayment'' of
                         Some terr \<Rightarrow> Inl (Error_Transitioning (order_code order) terr)
                       | None \<Rightarrow>
                           Inr (w2 @ [TransitionToState c (order_id order) ''ArrangingPayment'']))
                 else Inr w2)
          in
     (case transitioned of
        Inl err \<Rightarrow> (Inl err, w2)
      | Inr w3 \<Rightarrow>
          let payment = \<lparr> payment_method_code = paymentMethodCode handler,
                          setupIntentId = event_id eventData,
                          payment_amount = metadata_amount eventData \<rparr>;
              settled = LoggerInfo (Log_SettledPayment (order_code order) channelToken)
          in
     (case addPaymentToOrder svc w3 c (order_id order) payment of
        None \<Rightarrow> (Inr (), w3 @ [AddPaymentToOrder c (order_id order) payment, settled])
      | Some res \<Rightarrow>
          if errorCode res \<noteq> []
          then (Inl (Error_AddingPayment (order_code order) (error_message res)), w3)
          else (Inr (), w3 @ [settled])))))))))))"

section \<open>Creating the subscriptions\<close>

text \<open>
  The \<open>try\<close> block of the loop body in \<open>createSubscriptions\<close>: the recurring
  subscription, and the downpayment subscription under \<open>if (pricing.downpayment)\<close>.
  \<open>printMoney\<close> of \<open>util.ts\<close> only formats the amount inside the note; the note
  keeps the amount.
\<close>

definition recurringRequest ::
  "order \<Rightarrow> order_line \<Rightarrow> string \<Rightarrow> string \<Rightarrow> string \<Rightarrow> pricing \<Rightarrow> sub_request" where
  "recurringRequest ord orderLine custId pmId prodId p =
     \<lparr> customerId = custId, productId = prodId, sub_currencyCode = currencyCode ord,
       amount = recurringPrice p, sub_interval = interval p,
       sub_intervalCount = intervalCount p, paymentMethodId = pmId,
       sub_startDate = subscriptionStartDate p, proration = True,
       description = variant_name (productVariant orderLine) \<rparr>"

definition downpaymentRequest ::
  "order \<Rightarrow> 'p schedule \<Rightarrow> string \<Rightarrow> string \<Rightarrow> string \<Rightarrow> pricing \<Rightarrow> sub_request" where
  "downpaymentRequest ord sched custId pmId prodId p =
     \<lparr> customerId = custId, productId = prodId, sub_currencyCode = currencyCode ord,
       amount = downpayment p, sub_interval = durationInterval sched,
       sub_intervalCount = num (durationCount sched), paymentMethodId = pmId,
       sub_startDate = subscriptionStartDate p, proration = False,
       description = ''Downpayment'' \<rparr>"

definition createLineSubscriptions ::
  "'p services \<Rightarrow> ctx \<Rightarrow> order \<Rightarrow> stripe_client \<Rightarrow> string \<Rightarrow> string \<Rightarrow> string \<Rightarrow>
   order_line \<Rightarrow> pricing \<Rightarrow> world \<Rightarrow> (error + unit) \<times> world" where
  "createLineSubscriptions svc c ord client custId pmId prodId orderLine p w =
     (let req = recurringRequest ord orderLine custId pmId prodId p in
      case createOffSessionSubscription svc w client req of
        Inl err \<Rightarrow> (Inl err, w)
      | Inr recurringId \<Rightarrow>
          let w1 = w @ [SubscriptionCreated req recurringId,
                        LoggerInfo (Log_CreatedRecurring (order_code ord))];
              w2 = logOrderHistory c (order_id ord)
                     (Note_CreatedSubscription recurringId (recurringPrice p)
                        (intervalCount p) (interval p)) w1
          in
          if truthy (downpayment p)
          then
            (case getSchedule (svc_schedules svc) (productVariant orderLine) of
               Inl err \<Rightarrow> (Inl err, w2)
             | Inr sched \<Rightarrow>
                 let dreq = downpaymentRequest ord sched custId pmId prodId p in
                 (case createOffSessionSubscription svc w2 client dreq of
                    Inl err \<Rightarrow> (Inl err, w2)
                  | Inr downpaymentId \<Rightarrow>
                      (Inr (),
                       logOrderHistory c (order_id ord)
                         (Note_CreatedDownpayment downpaymentId (downpayment p)
                            (num (durationCount sched)) (durationInterval sched))
                         (w2 @ [SubscriptionCreated dreq downpaymentId,
                                LoggerInfo (Log_CreatedDownpayment (order_code ord))]))))
          else (Inr (), w2))"

text \<open>
  One turn of \<open>for (const orderLine of order.lines)\<close>: the pricing (outside the
  \<open>try\<close>), then the \<open>try\<close> block, whose \<open>catch\<close> writes a note and throws again.
\<close>

definition createSubscriptionsForLine ::
  "'p services \<Rightarrow> ctx \<Rightarrow> order \<Rightarrow> stripe_client \<Rightarrow> string \<Rightarrow> string \<Rightarrow> string \<Rightarrow>
   order_line \<Rightarrow> world \<Rightarrow> (error + unit) \<times> world" where
  "createSubscriptionsForLine svc c ord client custId pmId prodId orderLine w =
     (case getSubscriptionPricing (env_of svc w) (svc_util svc) None
             (Some (productVariant orderLine)) of
        Inl err \<Rightarrow> (Inl err, w)
      | Inr p \<Rightarrow>
          (case createLineSubscriptions svc c ord client custId pmId prodId orderLine p
                  (w @ [LoggerInfo (Log_CreatingSubscriptions p)]) of
             (Inl err, w') \<Rightarrow>
               (Inl err, logOrderHistory c (order_id ord) (Note_FailedToCreate err) w')
           | (Inr u, w') \<Rightarrow> (Inr (), w')))"

fun createSubscriptionsLoop ::
  "'p services \<Rightarrow> ctx \<Rightarrow> order \<Rightarrow> stripe_client \<Rightarrow> string \<Rightarrow> string \<Rightarrow> string \<Rightarrow>
   order_line list \<Rightarrow> world \<Rightarrow> (error + unit) \<times> world" where
  "createSubscriptionsLoop svc c ord client custId pmId prodId [] w = (Inr (), w)"
| "createSubscriptionsLoop svc c ord client custId pmId prodId (orderLine # rest) w =
     (case createSubscriptionsForLine svc c ord client custId pmId prodId orderLine w of
        (Inl err, w') \<Rightarrow> (Inl err, w')
      | (Inr u, w') \<Rightarrow> createSubscriptionsLoop svc c ord client custId pmId prodId rest w')"

definition createSubscriptions ::
  "'p services \<Rightarrow> ctx \<Rightarrow> string \<Rightarrow> string \<Rightarrow> string \<Rightarrow> world \<Rightarrow> (error + unit) \<times> world" where
  "createSubscriptions svc c orderCode custId pmId w =
     (case findOneByCode svc w c orderCode of
        None \<Rightarrow> (Inl (Error_CannotFindOrder orderCode), w)
      | Some ord \<Rightarrow>
     (case getStripeHandler svc c (order_id ord) w of
        (Inl err, w1) \<Rightarrow> (Inl err, w1)
      | (Inr handler, w1) \<Rightarrow>
     (case customersRetrieve svc w1 (stripeClient handler) custId of
        Inl err \<Rightarrow> (Inl err, w1)
      | Inr None \<Rightarrow> (Inl (Error_CustomerDoesNotExist custId), w1)
      | Inr (Some stripeCustomer) \<Rightarrow>
     (case order_customer ord of
        None \<Rightarrow> (Inl TypeError_NoCustomer, w1)
      | Some cust \<Rightarrow>
          let productName = ''Order '' @ order_code ord @ '' - '' @ emailAddress cust in
     (case productsCreate svc w1 (stripeClient handler) productName of
        Inl err \<Rightarrow> (Inl err, w1)
      | Inr prodId \<Rightarrow>
          createSubscriptionsLoop svc c ord (stripeClient handler) custId pmId prodId
            (order_lines ord) (w1 @ [ProductCreated productName prodId]))))))"

text \<open>The subscriptions made at Stripe so far, oldest first.\<close>

fun createdSubscriptions :: "world \<Rightarrow> sub_request list" where
  "createdSubscriptions [] = []"
| "createdSubscriptions (SubscriptionCreated r i # w) = r # createdSubscriptions w"
| "createdSubscriptions (e # w) = createdSubscriptions w"

section \<open>A sample configuration\<close>

text \<open>
  Concrete helpers, schedules and services at which the functions above are
  evaluated below. The helpers are stand-ins with intervals of fixed length (a month
  of 30 days, a year of 365): the day rate is the total price by the days of one
  duration, the start date is the next multiple of the billing interval, counted from
  the epoch, on or after now.
\<close>

definition daysIn :: "interval \<Rightarrow> int" where
  "daysIn iv = (case iv of Day \<Rightarrow> 1 | Week \<Rightarrow> 7 | Month \<Rightarrow> 30 | Year \<Rightarrow> 365)"

definition ex_util :: "unit util" where
  "ex_util =
     \<lparr> getDayRate = (\<lambda>total iv cnt. js_div total (js_mul cnt (num (daysIn iv)))),
       getNextStartDate =
         (\<lambda>n iv p. - ((- n) div (daysIn iv * msPerDay)) * (daysIn iv * msPerDay)),
       getDaysUntilNextStartDate = calendarDaysBetween \<rparr>"

definition ex_schedule ::
  "string \<Rightarrow> interval \<Rightarrow> int \<Rightarrow> interval \<Rightarrow> int \<Rightarrow> int \<Rightarrow> unit schedule" where
  "ex_schedule n bi bc di dc dp =
     \<lparr> schedule_name = n, billingInterval = bi, billingCount = bc, durationInterval = di,
       durationCount = dc, schedule_downpayment = dp, schedule_startDate = () \<rparr>"

definition ex_schedules :: "unit schedule list" where
  "ex_schedules =
     [ex_schedule ''monthly'' Month 1 Month 1 0,
      ex_schedule ''half-year'' Month 1 Month 6 6000,
      ex_schedule ''mixed'' Month 1 Year 1 0,
      ex_schedule ''three-by-two'' Month 2 Month 3 300,
      ex_schedule ''zero'' Month 0 Month 0 0]"

definition ex_variant :: "int \<Rightarrow> int \<Rightarrow> string \<Rightarrow> variant" where
  "ex_variant i p n =
     \<lparr> variant_id = IdNumber i, variant_name = ''Magazine'', price = p,
       subscriptionSchedule = Some n \<rparr>"

definition ex_env :: "date \<Rightarrow> (ID \<Rightarrow> variant option) \<Rightarrow> unit env" where
  "ex_env n store = \<lparr> now = n, findOne = store, schedules = ex_schedules \<rparr>"

definition ex_store :: "ID \<Rightarrow> variant option" where
  "ex_store i = (if i = IdNumber 1 then Some (ex_variant 1 12000 ''monthly'') else None)"

definition ex_input :: "ID option \<Rightarrow> date option \<Rightarrow> int option \<Rightarrow> pricing_input" where
  "ex_input i d dp = \<lparr> productVariantId = i, input_startDate = d, input_downpayment = dp \<rparr>"

definition ex_order :: order where
  "ex_order =
     \<lparr> order_id = IdNumber 5, order_code = ''ORD1'', order_state = ''AddingItems'',
       order_customer = Some \<lparr> customer_id = IdNumber 3, emailAddress = ''a@b.c'' \<rparr>,
       order_lines = [\<lparr> productVariant = ex_variant 1 12000 ''half-year'' \<rparr>,
                      \<lparr> productVariant = ex_variant 2 12000 ''monthly'' \<rparr>],
       currencyCode = ''EUR'' \<rparr>"

definition ex_svc :: "unit services" where
  "ex_svc =
     \<lparr> svc_now = (\<lambda>w. 864000000),
       svc_variantFindOne = (\<lambda>w. ex_store),
       svc_schedules = ex_schedules,
       svc_util = ex_util,
       getChannelFromToken = (\<lambda>w t. Inr \<lparr> channel_token = t \<rparr>),
       findOneByCode = (\<lambda>w c code. if code = ''ORD1'' then Some ex_order else None),
       getEligiblePaymentMethods =
         (\<lambda>w c i. [\<lparr> quote_id = IdNumber 7, quote_code = ''my-stripe-subscription'' \<rparr>]),
       paymentMethodFindOne =
         (\<lambda>w c i. if i = IdNumber 7
                   then Some \<lparr> pm_code = ''my-stripe-subscription'',
                                pm_handler_code = ''stripe-subscription'',
                                pm_handler_args =
                                  [\<lparr> arg_name = ''apiKey'', arg_value = ''sk'' \<rparr>,
                                   \<lparr> arg_name = ''webhookSecret'', arg_value = ''whsec'' \<rparr>] \<rparr>
                   else None),
       handlerCode = ''stripe-subscription'',
       disableWebhookSignatureChecking = False,
       validateWebhookSignature =
         (\<lambda>cl body sig. if sig = Some ''valid'' then None
                         else Some (Error_External ''invalid signature'')),
       transitionToState = (\<lambda>w c i st. None),
       addPaymentToOrder = (\<lambda>w c i p. None),
       customersRetrieve = (\<lambda>w cl i. Inr (Some i)),
       productsCreate = (\<lambda>w cl n. Inr ''prod_1''),
       createOffSessionSubscription =
         (\<lambda>w cl r. Inr (if proration r then ''sub_recurring'' else ''sub_downpayment'')) \<rparr>"

definition ex_ctx :: ctx where
  "ex_ctx =
     \<lparr> apiType = ''admin'', isAuthorized = True, authorizedAsOwnerOnly = False,
       ctx_channel = \<lparr> channel_token = ''tok'' \<rparr>, languageCode = ''en'' \<rparr>"

definition ex_client :: stripe_client where
  "ex_client = \<lparr> client_webhookSecret = ''whsec'', client_apiKey = ''sk'' \<rparr>"

definition ex_webhook :: "string \<Rightarrow> webhook" where
  "ex_webhook t =
     \<lparr> event_type = t,
       event_object =
         \<lparr> event_id = ''seti_1'', event_customer = Some ''cus_1'', payment_method = ''pm_1'',
           metadata_orderCode = Some ''ORD1'', metadata_channelToken = Some ''tok'',
           metadata_amount = ''12000'' \<rparr> \<rparr>"

section \<open>Observations on the world\<close>

text \<open>The entries of the world that are log lines; all others change an order, the
  job queue or Stripe.\<close>

fun isLogLine :: "effect \<Rightarrow> bool" where
  "isLogLine (LoggerInfo m) = True"
| "isLogLine (LoggerWarn m) = True"
| "isLogLine e = False"

text \<open>
  Whether the schedule of an order line's variant has a downpayment other than 0.
\<close>

definition lineHasDownpayment :: "'p services \<Rightarrow> order_line \<Rightarrow> bool" where
  "lineHasDownpayment svc orderLine =
     (case getSchedule (svc_schedules svc) (productVariant orderLine) of
        Inl err \<Rightarrow> False
      | Inr s \<Rightarrow> schedule_downpayment s \<noteq> 0)"

text \<open>
  What one order line has made at Stripe: for a pricing of the line's variant (as
  \<open>createSubscriptions\<close> computes it, without input), the recurring subscription alone
  when the downpayment of the pricing is 0, and otherwise the recurring subscription
  followed by the downpayment subscription, which has no proration and the interval and
  count of the schedule's duration.
\<close>

abbreviation madeForLine ::
  "'p services \<Rightarrow> order \<Rightarrow> string \<Rightarrow> string \<Rightarrow> string \<Rightarrow> order_line \<Rightarrow> sub_request list \<Rightarrow> bool" where
  "madeForLine svc ord custId pmId prodId orderLine reqs \<equiv>
     (\<exists>p wi.
        getSubscriptionPricing (env_of svc wi) (svc_util svc) None
          (Some (productVariant orderLine)) = Inr p
        \<and> proration (recurringRequest ord orderLine custId pmId prodId p)
        \<and> (downpayment p = num 0 \<longrightarrow>
             reqs = [recurringRequest ord orderLine custId pmId prodId p])
        \<and> (downpayment p \<noteq> num 0 \<longrightarrow>
             (\<exists>s. getSchedule (svc_schedules svc) (productVariant orderLine) = Inr s
                \<and> reqs = [recurringRequest ord orderLine custId pmId prodId p,
                           downpaymentRequest ord s custId pmId prodId p]
                \<and> \<not> proration (downpaymentRequest ord s custId pmId prodId p)
                \<and> sub_interval (downpaymentRequest ord s custId pmId prodId p)
                    = durationInterval s
                \<and> sub_intervalCount (downpaymentRequest ord s custId pmId prodId p)
                    = num (durationCount s))))"

section \<open>Evaluation\<close>

lemmas pricing_defs =
  getSubscriptionPricing_def resolveVariant_def getSchedule_def billingsPerDuration_def
  totalSubscriptionPrice_def effectiveDownpayment_def computeRecurringPrice_def num_def
  js_sub_def calendarDaysBetween_def msPerDay_def

lemmas js_defs =
  js_div_def js_mul_def js_add_def js_sub_def signed_zero_def signed_inf_def num_def

lemmas ex_defs =
  ex_env_def ex_store_def ex_util_def ex_variant_def ex_schedules_def ex_schedule_def
  ex_input_def daysIn_def

lemmas world_defs =
  createSubscriptionsForLine_def createLineSubscriptions_def recurringRequest_def
  downpaymentRequest_def logOrderHistory_def env_of_def

lemmas ex_world_defs =
  ex_svc_def ex_order_def ex_ctx_def ex_client_def

section \<open>Auxiliary facts\<close>

subsection \<open>Rounding to a double\<close>

text \<open>
  The facts about \<open>round64\<close> that the properties below rest on: in the normal range
  the result is within half a unit in the last place of the exact value; an integer of
  magnitude up to \<open>2 ^ 53\<close> is its own double; the quotient of two such integers is an
  integer only when the division is exact.
\<close>

lemma rne_of_int: "rne (of_int n) = n"
  by (simp add: rne_def)

lemma rne_error: "\<bar>of_int (rne x) - x\<bar> \<le> 1 / 2"
proof -
  have "of_int \<lfloor>x\<rfloor> \<le> x" "x < of_int \<lfloor>x\<rfloor> + 1" by linarith+
  then show ?thesis by (auto simp: rne_def Let_def)
qed

lemma rne_mono_int: "of_int n \<le> x \<Longrightarrow> n \<le> rne x"
proof -
  assume "of_int n \<le> x"
  then have "n \<le> \<lfloor>x\<rfloor>" by (simp add: le_floor_iff)
  then show ?thesis by (auto simp: rne_def Let_def)
qed

lemma rne_le_int: "x \<le> of_int n \<Longrightarrow> rne x \<le> n"
proof -
  assume a: "x \<le> of_int n"
  show ?thesis
  proof (cases "x = of_int n")
    case True then show ?thesis by (simp add: rne_of_int)
  next
    case False
    with a have "x < of_int n" by simp
    then have "\<lfloor>x\<rfloor> < n" by (simp add: floor_less_iff)
    then show ?thesis by (auto simp: rne_def Let_def)
  qed
qed

lemma ilog2_bounds:
  assumes "0 < q"
  shows "2 powi (ilog2 q) \<le> q" and "q < 2 powi (ilog2 q + 1)"
proof -
  have "2 powi (ilog2 q) \<le> q \<and> q < 2 powi (ilog2 q + 1)"
  proof (cases "1 \<le> q")
    case True
    define n where "n = \<lfloor>q\<rfloor>"
    have n: "1 \<le> n" "of_int n \<le> q" "q < of_int n + 1"
      using True by (auto simp: n_def le_floor_iff) linarith+
    from bitlen_bounds [of n] n(1)
    have b: "2 ^ nat (bitlen n - 1) \<le> n" "n < 2 ^ nat (bitlen n)" by auto
    have pos: "1 \<le> bitlen n" using n(1) by (auto simp: bitlen_alt_def)
    have e: "ilog2 q = bitlen n - 1" using True by (simp add: ilog2_def n_def)
    have "(2::rat) powi (bitlen n - 1) = of_int (2 ^ nat (bitlen n - 1))"
      using pos by (simp add: power_int_def)
    also have "\<dots> \<le> of_int n" using b(1) by (simp only: of_int_le_iff)
    finally have lo: "2 powi (bitlen n - 1) \<le> q" using n(2) by simp
    have "n + 1 \<le> 2 ^ nat (bitlen n)" using b(2) by simp
    then have "(of_int (n + 1) :: rat) \<le> of_int (2 ^ nat (bitlen n))"
      by (simp only: of_int_le_iff)
    also have "\<dots> = 2 powi (bitlen n)" using pos by (simp add: power_int_def)
    finally have hi: "q < 2 powi (bitlen n)" using n(3) by simp
    from lo hi e show ?thesis by simp
  next
    case False
    then have q1: "q < 1" by simp
    define y where "y = \<lceil>1 / q\<rceil> - 1"
    have inv: "1 < 1 / q" using assms q1 by (simp add: field_simps)
    have y: "1 \<le> y" "of_int y < 1 / q" "1 / q \<le> of_int y + 1"
      using inv by (auto simp: y_def less_ceiling_iff) linarith+
    from bitlen_bounds [of y] y(1)
    have b: "2 ^ nat (bitlen y - 1) \<le> y" "y < 2 ^ nat (bitlen y)" by auto
    have pos: "1 \<le> bitlen y" using y(1) by (auto simp: bitlen_alt_def)
    have e: "ilog2 q = - bitlen y" using False by (simp add: ilog2_def y_def)
    have "y + 1 \<le> 2 ^ nat (bitlen y)" using b(2) by simp
    then have "(of_int (y + 1) :: rat) \<le> of_int (2 ^ nat (bitlen y))"
      by (simp only: of_int_le_iff)
    then have "1 / q \<le> 2 ^ nat (bitlen y)" using y(3) by simp
    then have "1 \<le> 2 ^ nat (bitlen y) * q" using assms by (simp add: field_simps)
    then have "1 / ((2::rat) ^ nat (bitlen y)) \<le> q"
      by (simp add: field_simps)
    then have lo: "2 powi (- bitlen y) \<le> q"
      using pos by (simp add: power_int_def power_one_over)
    have "(2::rat) ^ nat (bitlen y - 1) = of_int (2 ^ nat (bitlen y - 1))" by simp
    also have "\<dots> \<le> of_int y"
      using b(1) by (simp only: of_int_le_iff)
    also have "\<dots> < 1 / q" by (rule y(2))
    finally have "(2::rat) ^ nat (bitlen y - 1) < 1 / q" .
    then have "q * 2 ^ nat (bitlen y - 1) < 1" using assms by (simp add: field_simps)
    then have "q < 1 / ((2::rat) ^ nat (bitlen y - 1))"
      by (simp add: field_simps)
    moreover have "(2::rat) powi (- bitlen y + 1) = 1 / (2 ^ nat (bitlen y - 1))"
    proof (cases "bitlen y = 1")
      case True then show ?thesis by simp
    next
      case False
      with pos have "nat (bitlen y - 1) = nat (- (- bitlen y + 1))" "\<not> 0 \<le> - bitlen y + 1"
        by auto
      then show ?thesis by (simp add: power_int_def power_one_over)
    qed
    ultimately have hi: "q < 2 powi (- bitlen y + 1)" by simp
    from lo hi e show ?thesis by simp
  qed
  then show "2 powi (ilog2 q) \<le> q" and "q < 2 powi (ilog2 q + 1)" by simp_all
qed


lemma round64_normal:
  assumes lo: "2 powi (- 1022) \<le> a" and hi: "a < 2 powi 1023"
  shows "round64 a = Fin (of_int (rne (a / 2 powi (ilog2 a - 52))) * 2 powi (ilog2 a - 52))
         \<and> round64 (- a)
             = Fin (- (of_int (rne (a / 2 powi (ilog2 a - 52))) * 2 powi (ilog2 a - 52)))
         \<and> \<bar>of_int (rne (a / 2 powi (ilog2 a - 52))) * 2 powi (ilog2 a - 52) - a\<bar>
             \<le> 2 powi (ilog2 a - 53)
         \<and> 0 < rne (a / 2 powi (ilog2 a - 52))"
proof -
  have apos: "0 < a"
    using lo zero_less_power_int [of "2::rat" "- 1022"] by linarith
  define e where "e = ilog2 a"
  define u :: rat where "u = 2 powi (e - 52)"
  define m where "m = rne (a / u)"
  have b: "2 powi e \<le> a" "a < 2 powi (e + 1)"
    using ilog2_bounds [OF apos] by (simp_all add: e_def)
  have e_lo: "- 1022 \<le> e"
  proof (rule ccontr)
    assume "\<not> - 1022 \<le> e"
    then have "e + 1 \<le> - 1022" by simp
    then have "(2::rat) powi (e + 1) \<le> 2 powi (- 1022)"
      by (intro power_int_increasing) auto
    with b(2) lo show False by linarith
  qed
  have e_hi: "e \<le> 1022"
  proof (rule ccontr)
    assume "\<not> e \<le> 1022"
    then have "1023 \<le> e" by simp
    then have "(2::rat) powi 1023 \<le> 2 powi e"
      by (intro power_int_increasing) auto
    with b(1) hi show False by linarith
  qed
  have upos: "0 < u" by (simp add: u_def)
  have split: "(2::rat) powi (k + (e - 52)) = 2 powi k * u" for k
    unfolding u_def by (rule power_int_add) simp
  have pe: "(2::rat) powi e = 2 ^ 52 * u"
  proof -
    have "(2::rat) powi e = 2 powi (52 + (e - 52))"
      by (rule arg_cong [where f = "\<lambda>k. 2 powi k"]) simp
    also have "\<dots> = 2 powi 52 * u" by (rule split)
    finally show ?thesis by (simp only: power_int_numeral)
  qed
  have pe1: "(2::rat) powi (e + 1) = 2 ^ 53 * u"
  proof -
    have "(2::rat) powi (e + 1) = 2 powi (53 + (e - 52))"
      by (rule arg_cong [where f = "\<lambda>k. 2 powi k"]) simp
    also have "\<dots> = 2 powi 53 * u" by (rule split)
    finally show ?thesis by (simp only: power_int_numeral)
  qed
  have half: "(2::rat) powi (e - 53) = u / 2"
  proof -
    have "(2::rat) powi (e - 53) = 2 powi (- 1 + (e - 52))"
      by (rule arg_cong [where f = "\<lambda>k. 2 powi k"]) simp
    also have "\<dots> = 2 powi (- 1) * u" by (rule split)
    finally show ?thesis by (simp add: power_int_minus)
  qed
  have b1: "2 ^ 52 * u \<le> a" using b(1) unfolding pe .
  have b2: "a < 2 ^ 53 * u" using b(2) unfolding pe1 .
  have q_lo: "of_int (2 ^ 52) \<le> a / u"
    using b1 upos by (simp add: field_simps)
  have q_hi: "a / u \<le> of_int (2 ^ 53)"
    using b2 upos by (simp add: field_simps)
  have m_lo: "2 ^ 52 \<le> m" unfolding m_def by (rule rne_mono_int [OF q_lo])
  have m_hi: "m \<le> 2 ^ 53" unfolding m_def by (rule rne_le_int [OF q_hi])
  have mpos: "0 < m" using m_lo by simp
  define r where "r = of_int m * u"
  have rpos: "0 < r" using mpos upos by (simp add: r_def)
  have "r \<le> 2 ^ 53 * u"
  proof -
    have "(of_int m :: rat) \<le> of_int (2 ^ 53)" using m_hi by (simp only: of_int_le_iff)
    then show ?thesis using upos by (simp add: r_def)
  qed
  also have "\<dots> = 2 powi (e + 1)" by (simp add: pe1)
  also have "\<dots> \<le> 2 powi 1023"
    using e_hi by (intro power_int_increasing) auto
  also have "\<dots> < 2 ^ 1024"
    by (simp only: power_int_numeral power_strict_increasing_iff)
  finally have no_overflow: "\<not> 2 ^ 1024 \<le> r" by simp
  have err: "\<bar>r - a\<bar> \<le> u / 2"
  proof -
    have "\<bar>of_int m - a / u\<bar> \<le> 1 / 2" unfolding m_def by (rule rne_error)
    then have "\<bar>of_int m - a / u\<bar> * u \<le> 1 / 2 * u"
      using upos by (intro mult_right_mono) auto
    moreover have "\<bar>of_int m - a / u\<bar> * u = \<bar>r - a\<bar>"
    proof -
      have "(of_int m - a / u) * u = r - a"
        using upos by (simp add: r_def field_simps)
      then have "\<bar>r - a\<bar> = \<bar>of_int m - a / u\<bar> * \<bar>u\<bar>"
        by (simp only: abs_mult [symmetric])
      then show ?thesis using upos by simp
    qed
    ultimately show ?thesis by simp
  qed
  have emax: "max (ilog2 a) (- 1022) = e" using e_lo by (simp add: e_def)
  have r1: "round64 a = Fin r"
    using apos rpos no_overflow
    by (simp add: round64_def Let_def emax u_def [symmetric] m_def [symmetric] r_def [symmetric])
  have r2: "round64 (- a) = Fin (- r)"
    using apos rpos no_overflow
    by (simp add: round64_def Let_def emax u_def [symmetric] m_def [symmetric] r_def [symmetric])
  have err': "\<bar>r - a\<bar> \<le> 2 powi (e - 53)" using err by (simp only: half)
  show ?thesis
    using r1 r2 err' mpos unfolding r_def m_def u_def e_def by blast
qed

lemma round64_exact:
  assumes "2 powi (- 1022) \<le> a" and "a < 2 powi 1023"
    and "a / 2 powi (ilog2 a - 52) = of_int j"
  shows "round64 a = Fin a" and "round64 (- a) = Fin (- a)"
proof -
  have "of_int (rne (a / 2 powi (ilog2 a - 52))) * 2 powi (ilog2 a - 52) = a"
    unfolding assms(3) rne_of_int unfolding assms(3) [symmetric] by simp
  with round64_normal [OF assms(1,2)] show "round64 a = Fin a" and "round64 (- a) = Fin (- a)"
    by simp_all
qed

lemma round64_nat:
  assumes "1 \<le> k" and "k \<le> 2 ^ 53"
  shows "round64 (of_int k) = Fin (of_int k)" and "round64 (- of_int k) = Fin (- of_int k)"
proof -
  define a :: rat where "a = of_int k"
  have a1: "1 \<le> a" using assms(1) by (simp add: a_def)
  have a2: "a \<le> 2 ^ 53"
  proof -
    have "(of_int k :: rat) \<le> of_int (2 ^ 53)" using assms(2) by (simp only: of_int_le_iff)
    then show ?thesis by (simp add: a_def)
  qed
  have lo: "2 powi (- 1022) \<le> a"
  proof -
    have "(2::rat) powi (- 1022) \<le> 2 powi 0" by (intro power_int_increasing) auto
    with a1 show ?thesis by simp
  qed
  have hi: "a < 2 powi 1023"
  proof -
    have "(2::rat) ^ 53 < 2 ^ 1023" by (simp only: power_strict_increasing_iff)
    with a2 show ?thesis by (simp only: power_int_numeral) linarith?
  qed
  define e where "e = ilog2 a"
  have b: "2 powi e \<le> a" "a < 2 powi (e + 1)"
    using ilog2_bounds [of a] a1 by (simp_all add: e_def)
  have e0: "0 \<le> e"
  proof (rule ccontr)
    assume "\<not> 0 \<le> e"
    then have "e + 1 \<le> 0" by simp
    then have "(2::rat) powi (e + 1) \<le> 2 powi 0" by (intro power_int_increasing) auto
    with b(2) a1 show False by simp
  qed
  have e53: "e \<le> 53"
  proof (rule ccontr)
    assume "\<not> e \<le> 53"
    then have "54 \<le> e" by simp
    then have "(2::rat) powi 54 \<le> 2 powi e" by (intro power_int_increasing) auto
    moreover have "(2::rat) ^ 53 < 2 ^ 54" by (simp only: power_strict_increasing_iff)
    ultimately show False using b(1) a2 by (simp only: power_int_numeral) linarith?
  qed
  have "\<exists>j. a / 2 powi (e - 52) = of_int j"
  proof (cases "e \<le> 52")
    case True
    have "a / 2 powi (e - 52) = a * 2 powi (52 - e)"
      using power_int_minus [of "2::rat" "52 - e"] by (simp add: field_simps)
    also have "\<dots> = of_int (k * 2 ^ nat (52 - e))"
      using True by (simp add: a_def power_int_def)
    finally show ?thesis by blast
  next
    case False
    with e53 have e: "e = 53" by simp
    have "(2::rat) ^ 53 \<le> a" using b(1) unfolding e by (simp only: power_int_numeral)
    with a2 have "a = 2 ^ 53" by simp
    then have "a / 2 powi (e - 52) = of_int (2 ^ 52)" by (simp add: e)
    then show ?thesis by blast
  qed
  then obtain j where j: "a / 2 powi (ilog2 a - 52) = of_int j" unfolding e_def by blast
  from round64_exact [OF lo hi j]
  show "round64 (of_int k) = Fin (of_int k)" and "round64 (- of_int k) = Fin (- of_int k)"
    by (simp_all add: a_def)
qed

lemma round64_int:
  assumes "\<bar>n\<bar> \<le> 2 ^ 53"
  shows "round64 (of_int n) = Fin (of_int n)"
proof -
  consider "n = 0" | "1 \<le> n" | "1 \<le> - n" by linarith
  then show ?thesis
  proof cases
    case 1
    then show ?thesis by (simp add: round64_def)
  next
    case 2
    with assms round64_nat(1) [of n] show ?thesis by simp
  next
    case 3
    with assms round64_nat(2) [of "- n"] show ?thesis by simp
  qed
qed

lemma round64_error:
  assumes "2 powi (- 1022) \<le> \<bar>q\<bar>" and "\<bar>q\<bar> < 2 powi 1023"
  shows "\<exists>r. round64 q = Fin r \<and> \<bar>r - q\<bar> \<le> \<bar>q\<bar> * 2 powi (- 53)"
proof -
  define a where "a = \<bar>q\<bar>"
  define r :: rat where "r = of_int (rne (a / 2 powi (ilog2 a - 52))) * 2 powi (ilog2 a - 52)"
  have apos: "0 < a"
    using assms(1) zero_less_power_int [of "2::rat" "- 1022"] unfolding a_def by linarith
  from round64_normal [of a] assms
  have n: "round64 a = Fin r" "round64 (- a) = Fin (- r)" "\<bar>r - a\<bar> \<le> 2 powi (ilog2 a - 53)"
    by (simp_all add: a_def r_def)
  have "(2::rat) powi (ilog2 a - 53) = 2 powi (ilog2 a) * 2 powi (- 53)"
    using power_int_add [of "2::rat" "ilog2 a" "- 53"] by simp
  also have "\<dots> \<le> a * 2 powi (- 53)"
    using ilog2_bounds(1) [OF apos] by (intro mult_right_mono) auto
  finally have bound: "\<bar>r - a\<bar> \<le> a * 2 powi (- 53)" using n(3) by linarith
  show ?thesis
  proof (cases "0 \<le> q")
    case True
    then have "q = a" by (simp add: a_def)
    with n(1) bound show ?thesis by auto
  next
    case False
    then have q: "q = - a" by (simp add: a_def)
    have "\<bar>- r - q\<bar> = \<bar>r - a\<bar>" unfolding q by (simp add: abs_minus_commute)
    with n(2) bound q show ?thesis unfolding a_def [symmetric] by auto
  qed
qed

lemma round64_nonneg:
  assumes "0 < q"
  shows "round64 q = PosInf \<or> (\<exists>r. round64 q = Fin r \<and> 0 \<le> r)"
proof -
  have "0 \<le> rne x" if "0 \<le> x" for x
    using rne_mono_int [of 0 x] that by simp
  then have "0 \<le> of_int (rne (\<bar>q\<bar> / 2 powi k)) * (2::rat) powi k" for k
    by (intro mult_nonneg_nonneg) auto
  then show ?thesis
    using assms by (auto simp: round64_def Let_def)
qed

lemma js_div_num_divisible:
  assumes "b \<noteq> 0" and "\<bar>a\<bar> \<le> 2 ^ 53" and "b dvd a"
  shows "js_is_integer (js_div (num a) (num b))"
    and "a \<noteq> 0 \<Longrightarrow> js_div (num a) (num b) = num (a div b)"
proof -
  from assms(3) obtain c where c: "a = b * c" by (auto simp: dvd_def)
  have quot: "(of_int a :: rat) / of_int b = of_int c" using assms(1) c by simp
  have "\<bar>c\<bar> \<le> \<bar>a\<bar>"
  proof -
    have "1 \<le> \<bar>b\<bar>" using assms(1) by simp
    then have "1 * \<bar>c\<bar> \<le> \<bar>b\<bar> * \<bar>c\<bar>" by (intro mult_right_mono) auto
    then show ?thesis by (simp add: c abs_mult)
  qed
  with assms(2) have cb: "\<bar>c\<bar> \<le> 2 ^ 53" by linarith
  have nz: "a \<noteq> 0 \<Longrightarrow> js_div (num a) (num b) = Fin (of_int c)"
    using assms(1) by (simp add: js_div_def num_def quot round64_int [OF cb])
  show "a \<noteq> 0 \<Longrightarrow> js_div (num a) (num b) = num (a div b)"
    using nz assms(1) c by (simp add: num_def)
  show "js_is_integer (js_div (num a) (num b))"
  proof (cases "a = 0")
    case True
    then show ?thesis using assms(1) by (simp add: js_div_def num_def signed_zero_def)
  next
    case False
    with nz show ?thesis by simp
  qed
qed

lemma js_div_num_fraction:
  assumes "b \<noteq> 0" and "\<bar>a\<bar> < 2 ^ 53" and "\<bar>b\<bar> \<le> 2 ^ 53" and "\<not> b dvd a"
  shows "\<not> js_is_integer (js_div (num a) (num b))"
proof -
  have a0: "a \<noteq> 0" using assms(4) by auto
  define q :: rat where "q = of_int a / of_int b"
  have bpos: "0 < \<bar>of_int b :: rat\<bar>" using assms(1) by simp
  have absq: "\<bar>q\<bar> = of_int \<bar>a\<bar> / of_int \<bar>b\<bar>" by (simp add: q_def)
  have b_le: "(of_int \<bar>b\<bar> :: rat) \<le> 2 ^ 53"
  proof -
    have "(of_int \<bar>b\<bar> :: rat) \<le> of_int (2 ^ 53)" using assms(3) by (simp only: of_int_le_iff)
    then show ?thesis by simp
  qed
  have a_lt: "(of_int \<bar>a\<bar> :: rat) < 2 ^ 53"
  proof -
    have "(of_int \<bar>a\<bar> :: rat) < of_int (2 ^ 53)" using assms(2) by (simp only: of_int_less_iff)
    then show ?thesis by simp
  qed
  have a_ge: "(1::rat) \<le> of_int \<bar>a\<bar>"
  proof -
    have "1 \<le> \<bar>a\<bar>" using a0 by simp
    then have "(of_int 1 :: rat) \<le> of_int \<bar>a\<bar>" by (simp only: of_int_le_iff)
    then show ?thesis by simp
  qed
  have b_ge: "(1::rat) \<le> of_int \<bar>b\<bar>"
  proof -
    have "1 \<le> \<bar>b\<bar>" using assms(1) by simp
    then have "(of_int 1 :: rat) \<le> of_int \<bar>b\<bar>" by (simp only: of_int_le_iff)
    then show ?thesis by simp
  qed
  have lo: "2 powi (- 1022) \<le> \<bar>q\<bar>"
  proof -
    have "(2::rat) powi (- 1022) \<le> 2 powi (- 53)" by (intro power_int_increasing) auto
    also have "\<dots> = 1 / 2 ^ 53" by (simp add: power_int_minus_divide)
    also have "\<dots> \<le> 1 / of_int \<bar>b\<bar>"
      using b_le b_ge by (intro divide_left_mono) auto
    also have "\<dots> \<le> \<bar>q\<bar>"
      unfolding absq using a_ge b_ge by (intro divide_right_mono) auto
    finally show ?thesis .
  qed
  have hi: "\<bar>q\<bar> < 2 powi 1023"
  proof -
    have "\<bar>q\<bar> \<le> of_int \<bar>a\<bar>"
      unfolding absq using a_ge b_ge by (simp add: field_simps mult_le_cancel_left1)
    also have "\<dots> < 2 ^ 53" by (rule a_lt)
    also have "(2::rat) ^ 53 < 2 ^ 1023" by (simp only: power_strict_increasing_iff)
    finally show ?thesis by (simp only: power_int_numeral)
  qed
  from round64_error [OF lo hi] obtain r where
    r: "round64 q = Fin r" "\<bar>r - q\<bar> \<le> \<bar>q\<bar> * 2 powi (- 53)" by blast
  have div: "js_div (num a) (num b) = Fin r"
    using assms(1) a0 r(1) by (simp add: js_div_def num_def q_def)
  have "of_int \<lfloor>r\<rfloor> \<noteq> r"
  proof
    assume int: "of_int \<lfloor>r\<rfloor> = r"
    define k where "k = \<lfloor>r\<rfloor>"
    have rk: "r = of_int k" unfolding k_def using int by (rule sym)
    have "\<bar>q\<bar> * 2 powi (- 53) < 1 / of_int \<bar>b\<bar>"
    proof -
      have "\<bar>q\<bar> * 2 powi (- 53) = (of_int \<bar>a\<bar> / 2 ^ 53) / of_int \<bar>b\<bar>"
        unfolding absq by (simp add: power_int_minus_divide)
      also have "\<dots> < 1 / of_int \<bar>b\<bar>"
        using a_lt b_ge by (intro divide_strict_right_mono) auto
      finally show ?thesis .
    qed
    with r(2) have "\<bar>of_int k - q\<bar> < 1 / of_int \<bar>b\<bar>" unfolding rk by linarith
    then have "\<bar>of_int k - q\<bar> * of_int \<bar>b\<bar> < 1"
      using b_ge by (simp add: field_simps)
    moreover have "\<bar>of_int k - q\<bar> * of_int \<bar>b\<bar> = (of_int \<bar>k * b - a\<bar> :: rat)"
    proof -
      have "(of_int k - q) * of_int b = (of_int (k * b - a) :: rat)"
        using assms(1) by (simp add: q_def field_simps)
      then have "\<bar>(of_int k - q) * of_int b\<bar> = \<bar>of_int (k * b - a) :: rat\<bar>" by simp
      then show ?thesis by (simp only: abs_mult of_int_abs)
    qed
    ultimately have "(of_int \<bar>k * b - a\<bar> :: rat) < of_int 1" by simp
    then have "\<bar>k * b - a\<bar> < 1" by (simp only: of_int_less_iff)
    then have "a = b * k" by (simp add: mult.commute)
    with assms(4) show False by simp
  qed
  with div show ?thesis by simp
qed

text \<open>Evaluation of \<open>round64\<close> at a given number, the exponent supplied.\<close>

lemma ilog2_unique:
  assumes "2 powi e \<le> q" and "q < 2 powi (e + 1)"
  shows "ilog2 q = e"
proof -
  have qpos: "0 < q"
    using assms(1) zero_less_power_int [of "2::rat" e] by linarith
  note b = ilog2_bounds [OF qpos]
  have "\<not> ilog2 q < e"
  proof
    assume "ilog2 q < e"
    then have "ilog2 q + 1 \<le> e" by simp
    then have "(2::rat) powi (ilog2 q + 1) \<le> 2 powi e"
      by (intro power_int_increasing) auto
    with b(2) assms(1) show False by linarith
  qed
  moreover have "\<not> e < ilog2 q"
  proof
    assume "e < ilog2 q"
    then have "e + 1 \<le> ilog2 q" by simp
    then have "(2::rat) powi (e + 1) \<le> 2 powi (ilog2 q)"
      by (intro power_int_increasing) auto
    with b(1) assms(2) show False by linarith
  qed
  ultimately show ?thesis by simp
qed

lemma round64_eval:
  assumes "2 powi e \<le> a" and "a < 2 powi (e + 1)" and "- 1022 \<le> e" and "e \<le> 1022"
  shows "round64 a = Fin (of_int (rne (a / 2 powi (e - 52))) * 2 powi (e - 52))"
proof -
  have e: "ilog2 a = e" by (rule ilog2_unique [OF assms(1,2)])
  have "(2::rat) powi (- 1022) \<le> 2 powi e"
    using assms(3) by (intro power_int_increasing) auto
  with assms(1) have lo: "2 powi (- 1022) \<le> a" by linarith
  have "(2::rat) powi (e + 1) \<le> 2 powi 1023"
    using assms(4) by (intro power_int_increasing) auto
  with assms(2) have hi: "a < 2 powi 1023" by linarith
  from round64_normal [OF lo hi] show ?thesis by (simp add: e)
qed

lemma round64_numeral [simp]:
  "numeral k \<le> (2 ^ 53 :: int) \<Longrightarrow> round64 (numeral k) = Fin (numeral k)"
  "numeral k \<le> (2 ^ 53 :: int) \<Longrightarrow> round64 (- numeral k) = Fin (- numeral k)"
  "round64 1 = Fin 1"
  "round64 (- 1) = Fin (- 1)"
  using round64_int [of "numeral k"] round64_int [of "- numeral k"]
    round64_int [of 1] round64_int [of "- 1"]
  by simp_all

lemma rne_divide:
  assumes "0 < b"
  shows "rne (of_int a / of_int b) =
           (if 2 * (a mod b) < b then a div b
            else if b < 2 * (a mod b) then a div b + 1
            else if even (a div b) then a div b else a div b + 1)"
proof -
  have f: "\<lfloor>(of_int a :: rat) / of_int b\<rfloor> = a div b" by (rule floor_divide_of_int_eq)
  have "(of_int a :: rat) = of_int (a div b) * of_int b + of_int (a mod b)"
    by (simp only: of_int_add [symmetric] of_int_mult [symmetric] div_mult_mod_eq)
  then have "(of_int a :: rat) / of_int b
               = (of_int (a div b) * of_int b + of_int (a mod b)) / of_int b"
    by simp
  also have "\<dots> = of_int (a div b) + of_int (a mod b) / of_int b"
    using assms by (simp add: add_divide_distrib)
  finally have "(of_int a :: rat) / of_int b = of_int (a div b) + of_int (a mod b) / of_int b" .
  then have r: "(of_int a :: rat) / of_int b - of_int (a div b) = of_int (a mod b) / of_int b"
    by simp
  have lt: "(of_int (a mod b) :: rat) / of_int b < 1 / 2 \<longleftrightarrow> 2 * (a mod b) < b"
  proof -
    have "(of_int (a mod b) :: rat) / of_int b < 1 / 2
            \<longleftrightarrow> (of_int (2 * (a mod b)) :: rat) < of_int b"
      using assms by (simp add: field_simps)
    then show ?thesis by (simp only: of_int_less_iff)
  qed
  have gt: "1 / 2 < (of_int (a mod b) :: rat) / of_int b \<longleftrightarrow> b < 2 * (a mod b)"
  proof -
    have "1 / 2 < (of_int (a mod b) :: rat) / of_int b
            \<longleftrightarrow> (of_int b :: rat) < of_int (2 * (a mod b))"
      using assms by (simp add: field_simps)
    then show ?thesis by (simp only: of_int_less_iff)
  qed
  show ?thesis unfolding rne_def Let_def f r lt gt by (rule refl)
qed

lemma floor_numeral_div [simp]:
  "\<lfloor>numeral a / numeral b :: rat\<rfloor> = numeral a div numeral b"
  using floor_divide_of_int_eq [of "numeral a" "numeral b", where ?'a = rat] by simp

lemma rne_numeral [simp]:
  "rne (numeral a / numeral b) =
     (if 2 * (numeral a mod numeral b) < (numeral b :: int) then numeral a div numeral b
      else if (numeral b :: int) < 2 * (numeral a mod numeral b) then numeral a div numeral b + 1
      else if even (numeral a div numeral b :: int) then numeral a div numeral b
      else numeral a div numeral b + 1)"
  "rne (numeral a) = numeral a"
  using rne_divide [of "numeral b" "numeral a"] rne_of_int [of "numeral a"] by simp_all

text \<open>
  Some values. The last one is a recurring price that exact arithmetic would put at
  4830: \<open>7 / 5\<close> is no double, \<open>10038 / (7 / 5)\<close> comes out just above 7170, and the
  floor of the difference is 4829.
\<close>

lemma round64_three_halves: "round64 (3 / 2) = Fin (3 / 2)"
  using round64_eval [of 0 "3 / 2"] by simp

lemma round64_seven_fifths: "round64 (7 / 5) = Fin (3152519739159347 / 2251799813685248)"
  using round64_eval [of 0 "7 / 5"] by simp

lemma round64_tie: "round64 9007199254740993 = Fin 9007199254740992"
  using round64_eval [of 53 9007199254740993] by simp

lemma double_rounding_example:
  "js_floor (js_sub (num 12000) (js_div (num 10038) (js_div (num 7) (num 5)))) = num 4829"
proof -
  have a: "js_div (num 7) (num 5) = Fin (3152519739159347 / 2251799813685248)"
    by (simp add: js_defs round64_seven_fifths)
  have "round64 (10038 / (3152519739159347 / 2251799813685248))
          = Fin (7883498371153921 / 1099511627776)"
    using round64_eval [of 12 "10038 / (3152519739159347 / 2251799813685248)"]
    by simp
  then have b: "js_div (num 10038) (Fin (3152519739159347 / 2251799813685248))
                  = Fin (7883498371153921 / 1099511627776)"
    by (simp add: js_defs)
  have "round64 (12000 - 7883498371153921 / 1099511627776)
          = Fin (5310641162158079 / 1099511627776)"
    using round64_eval [of 12 "12000 - 7883498371153921 / 1099511627776"]
    by simp
  then have c: "js_sub (num 12000) (Fin (7883498371153921 / 1099511627776))
                  = Fin (5310641162158079 / 1099511627776)"
    by (simp add: js_defs)
  show ?thesis unfolding a b c by (simp add: num_def)
qed

lemma signed_zero_example:
  "js_div (num 0) (num (- 1)) = NegZero"
  "js_div (num 100) (js_div (num 0) (num (- 1))) = NegInf"
  "js_div (num (- 100)) (js_div (num 0) (num (- 1))) = PosInf"
  by (simp_all add: js_defs)

lemma product_rounding_example:
  "js_mul (num 9007199254740991) (num 3) = num 27021597764222972"
  using round64_eval [of 54 27021597764222973]
  by (simp add: js_defs)

lemma third_example: "js_div (num 1) (num 3) = Fin (6004799503160661 / 18014398509481984)"
  using round64_eval [of "- 2" "1 / 3"]
  by (simp add: js_defs)

subsection \<open>Integers within the exact range\<close>

lemma js_div_one:
  assumes "\<bar>d\<bar> \<le> 2 ^ 53"
  shows "js_div (num d) (Fin 1) = num d"
  using round64_int [OF assms]
  by (simp add: js_div_def num_def signed_zero_def)

lemma js_sub_num:
  assumes "\<bar>p - d\<bar> \<le> 2 ^ 53"
  shows "js_sub (num p) (num d) = num (p - d)"
  using round64_int [OF assms]
  by (simp add: js_sub_def js_add_def num_def signed_zero_def)

lemma js_div_self:
  assumes "c \<noteq> 0"
  shows "js_div (num c) (num c) = Fin 1"
  using assms by (simp add: js_div_def num_def)

lemma js_mul_nonneg:
  assumes "0 \<le> k" and "0 \<le> q"
  shows "js_nonneg (js_mul (Fin k) (Fin q))"
proof (cases "k = 0 \<or> q = 0")
  case True
  with assms show ?thesis by (auto simp: js_mul_def signed_zero_def)
next
  case False
  with assms have "0 < k * q" by simp
  from round64_nonneg [OF this] False show ?thesis
    by (auto simp: js_mul_def)
qed

subsection \<open>The calculator and the loop\<close>

lemma effectiveDownpayment_num: "\<exists>d. effectiveDownpayment input s = num d"
  by (auto simp: effectiveDownpayment_def split: option.splits)

lemma recurringPrice_unit_ratio:
  assumes "billingCount s = durationCount s" and "billingCount s \<noteq> 0"
    and "\<bar>d\<bar> \<le> 2 ^ 53" and "\<bar>price variant - d\<bar> \<le> 2 ^ 53"
  shows "computeRecurringPrice variant (num d) s = num (price variant - d)"
proof -
  have "billingsPerDuration s = Fin 1"
    using assms(1,2) js_div_self [of "billingCount s"] by (simp add: billingsPerDuration_def)
  then have "computeRecurringPrice variant (num d) s
               = js_floor (js_sub (num (price variant)) (num d))"
    by (simp add: computeRecurringPrice_def js_div_one [OF assms(3)])
  also have "\<dots> = js_floor (num (price variant - d))"
    by (simp only: js_sub_num [OF assms(4)])
  also have "\<dots> = num (price variant - d)" by (simp add: num_def)
  finally show ?thesis .
qed

lemma pricing_returns:
  assumes "resolveVariant e input v = Inr variant"
    and "getSchedule (schedules e) variant = Inr s"
    and "billingInterval s = durationInterval s"
  shows "\<exists>r. getSubscriptionPricing e u input v = Inr r
             \<and> downpayment r = effectiveDownpayment input s
             \<and> recurringPrice r = computeRecurringPrice variant (effectiveDownpayment input s) s"
  using assms by (simp add: getSubscriptionPricing_def Let_def)

lemma calendarDaysBetween_nonneg:
  assumes "d1 \<le> d2"
  shows "\<exists>k. calendarDaysBetween d1 d2 = Fin k \<and> 0 \<le> k"
proof -
  have "d1 div msPerDay \<le> d2 div msPerDay"
    using assms by (simp add: msPerDay_def zdiv_mono1)
  then show ?thesis by (simp add: calendarDaysBetween_def)
qed

lemma pricing_days:
  assumes "getSubscriptionPricing e u input v = Inr r"
  shows "proratedDays r =
           getDaysUntilNextStartDate u
             (case (case input of None \<Rightarrow> None | Some i \<Rightarrow> input_startDate i) of
                None \<Rightarrow> now e | Some d \<Rightarrow> d)
             (subscriptionStartDate r)
         \<and> totalProratedAmount r = js_mul (proratedDays r) (dayRate r)"
  using assms
  by (auto simp: getSubscriptionPricing_def Let_def split: sum.splits if_splits)

lemma createdSubscriptions_append:
  "createdSubscriptions (w @ w') = createdSubscriptions w @ createdSubscriptions w'"
  by (induction w rule: createdSubscriptions.induct) auto

lemma preview_downpayment:
  assumes "getSubscriptionPricing e u None v = Inr p"
  shows "\<exists>d. downpayment p = num d"
  using assms
  by (auto simp: getSubscriptionPricing_def effectiveDownpayment_def Let_def
           split: sum.splits if_splits)

lemma truthy_num: "truthy (num d) \<longleftrightarrow> num d \<noteq> num 0"
  by (simp add: num_def)

lemma createLineSubscriptions_created:
  assumes "createLineSubscriptions svc c ord client custId pmId prodId orderLine p w = (Inr (), w')"
  shows "(\<not> truthy (downpayment p) \<longrightarrow>
            createdSubscriptions w'
              = createdSubscriptions w @ [recurringRequest ord orderLine custId pmId prodId p])
         \<and> (truthy (downpayment p) \<longrightarrow>
              (\<exists>s. getSchedule (svc_schedules svc) (productVariant orderLine) = Inr s
                 \<and> createdSubscriptions w'
                     = createdSubscriptions w
                       @ [recurringRequest ord orderLine custId pmId prodId p,
                          downpaymentRequest ord s custId pmId prodId p]))"
  using assms
  by (auto simp: createLineSubscriptions_def logOrderHistory_def Let_def
                 createdSubscriptions_append
           split: sum.splits if_splits)

lemma preview_schedule:
  assumes "getSubscriptionPricing (env_of svc w) u None (Some variant) = Inr p"
  shows "\<exists>s. getSchedule (svc_schedules svc) variant = Inr s
             \<and> downpayment p = num (schedule_downpayment s)"
  using assms
  by (auto simp: getSubscriptionPricing_def resolveVariant_def env_of_def
                 effectiveDownpayment_def Let_def
           split: sum.splits if_splits)

lemma getStripeHandler_world:
  assumes "getStripeHandler svc c orderId w = (Inr h, w1)"
  shows "w1 = w"
  using assms
  by (auto simp: getStripeHandler_def Let_def split: option.splits if_splits)

lemma turn_subscriptions:
  assumes "createSubscriptionsForLine svc c ord client custId pmId prodId orderLine w
             = (Inr (), w')"
  shows "\<exists>reqs. createdSubscriptions w' = createdSubscriptions w @ reqs
               \<and> madeForLine svc ord custId pmId prodId orderLine reqs"
proof -
  from assms obtain p where
    p: "getSubscriptionPricing (env_of svc w) (svc_util svc) None
          (Some (productVariant orderLine)) = Inr p"
    and body: "createLineSubscriptions svc c ord client custId pmId prodId orderLine p
                 (w @ [LoggerInfo (Log_CreatingSubscriptions p)]) = (Inr (), w')"
    by (auto simp: createSubscriptionsForLine_def split: sum.splits prod.splits)
  obtain d where d: "downpayment p = num d"
    using preview_downpayment [OF p] by blast
  have falsy: "\<not> truthy (downpayment p) \<longleftrightarrow> downpayment p = num 0"
    using d truthy_num [of d] by simp
  have logged: "createdSubscriptions (w @ [LoggerInfo (Log_CreatingSubscriptions p)])
                  = createdSubscriptions w"
    by (simp add: createdSubscriptions_append)
  note made = createLineSubscriptions_created [OF body, unfolded logged]
  show ?thesis
  proof (cases "downpayment p = num 0")
    case True
    with made falsy have "createdSubscriptions w'
        = createdSubscriptions w @ [recurringRequest ord orderLine custId pmId prodId p]"
      by simp
    with p True show ?thesis
      by (intro exI [of _ "[recurringRequest ord orderLine custId pmId prodId p]"])
         (auto simp: recurringRequest_def)
  next
    case False
    with made falsy obtain s where
      s: "getSchedule (svc_schedules svc) (productVariant orderLine) = Inr s"
      and c: "createdSubscriptions w'
                = createdSubscriptions w
                  @ [recurringRequest ord orderLine custId pmId prodId p,
                     downpaymentRequest ord s custId pmId prodId p]"
      by auto
    have "madeForLine svc ord custId pmId prodId orderLine
            [recurringRequest ord orderLine custId pmId prodId p,
             downpaymentRequest ord s custId pmId prodId p]"
      using p s False
      by (intro exI [of _ p] exI [of _ w])
         (auto simp: recurringRequest_def downpaymentRequest_def)
    with c show ?thesis by blast
  qed
qed

lemma loop_subscriptions:
  assumes "createSubscriptionsLoop svc c ord client custId pmId prodId ls w = (Inr (), w')"
  shows "\<exists>reqss. createdSubscriptions w' = createdSubscriptions w @ concat reqss
                \<and> list_all2 (madeForLine svc ord custId pmId prodId) ls reqss"
  using assms
proof (induction ls arbitrary: w)
  case Nil
  then show ?case by simp
next
  case (Cons l ls)
  from Cons.prems obtain w1 where
    first: "createSubscriptionsForLine svc c ord client custId pmId prodId l w = (Inr (), w1)"
    and rest: "createSubscriptionsLoop svc c ord client custId pmId prodId ls w1 = (Inr (), w')"
    by (auto split: sum.splits prod.splits)
  from turn_subscriptions [OF first] obtain reqs where
    reqs: "createdSubscriptions w1 = createdSubscriptions w @ reqs"
      "madeForLine svc ord custId pmId prodId l reqs"
    by blast
  from Cons.IH [OF rest] obtain reqss where
    reqss: "createdSubscriptions w' = createdSubscriptions w1 @ concat reqss"
      "list_all2 (madeForLine svc ord custId pmId prodId) ls reqss"
    by blast
  have "createdSubscriptions w' = createdSubscriptions w @ concat (reqs # reqss)"
    using reqs(1) reqss(1) by simp
  moreover have "list_all2 (madeForLine svc ord custId pmId prodId) (l # ls) (reqs # reqss)"
    using reqs(2) reqss(2) by simp
  ultimately show ?case by blast
qed

section \<open>Properties of the calculator\<close>

text \<open>
  C2. For a schedule whose \<open>billingInterval\<close> differs from its \<open>durationInterval\<close>
  the calculator fails with the not-implemented error and returns no
  \<open>PricingResult\<close>, whatever the helpers, counts and prices are: no pricing value is
  computed.
\<close>

theorem mixed_intervals_rejected:
  assumes "resolveVariant e input v = Inr variant"
    and "getSchedule (schedules e) variant = Inr s"
    and "billingInterval s \<noteq> durationInterval s"
  shows "getSubscriptionPricing e u input v = Inl Error_NotImplemented"
  using assms by (simp add: getSubscriptionPricing_def)

theorem mixed_intervals_rejected_witness:
  "getSubscriptionPricing (ex_env 0 ex_store) ex_util None (Some (ex_variant 1 12000 ''mixed''))
   = Inl Error_NotImplemented"
  using mixed_intervals_rejected [of "ex_env 0 ex_store" None "Some (ex_variant 1 12000 ''mixed'')"
      "ex_variant 1 12000 ''mixed''" "ex_schedule ''mixed'' Month 1 Year 1 0" ex_util]
  by (simp add: resolveVariant_def getSchedule_def ex_defs)

text \<open>
  C3. The downpayment of the result is the input's downpayment whenever the input has
  one, an explicit 0 included, and the schedule's downpayment when the input or its
  field is absent.
\<close>

theorem downpayment_override:
  assumes "resolveVariant e input v = Inr variant"
    and "getSchedule (schedules e) variant = Inr s"
    and "getSubscriptionPricing e u input v = Inr r"
  shows "downpayment r =
           (case input of
              None \<Rightarrow> num (schedule_downpayment s)
            | Some i \<Rightarrow>
                (case input_downpayment i of
                   None \<Rightarrow> num (schedule_downpayment s)
                 | Some d \<Rightarrow> num d))"
  using assms
  by (auto simp: getSubscriptionPricing_def effectiveDownpayment_def num_def Let_def
           split: if_splits option.splits)

theorem downpayment_override_witness:
  "downpayment (projr (getSubscriptionPricing (ex_env 0 ex_store) ex_util
        (Some (ex_input None None (Some 0))) (Some (ex_variant 1 12000 ''half-year'')))) = num 0"
  using downpayment_override [of "ex_env 0 ex_store" "Some (ex_input None None (Some 0))"
      "Some (ex_variant 1 12000 ''half-year'')" "ex_variant 1 12000 ''half-year''"
      "ex_schedule ''half-year'' Month 1 Month 6 6000" ex_util
      "projr (getSubscriptionPricing (ex_env 0 ex_store) ex_util
        (Some (ex_input None None (Some 0))) (Some (ex_variant 1 12000 ''half-year'')))"]
  by (simp add: pricing_defs ex_defs js_defs Let_def)

text \<open>
  C4, as stated: with equal intervals and \<open>billingCount = durationCount\<close> the recurring
  price is \<open>variantPrice - downpayment\<close> exactly, for every integer price and
  downpayment. It fails beyond the integers a double holds exactly: with the monthly
  schedule (counts 1 and 1), a price of 9007199254740994 and a downpayment of 1 the
  difference 9007199254740993 is no double and the recurring price is
  9007199254740992. It fails also when both counts are 0: the ratio is \<open>0 / 0\<close> and the
  recurring price is \<open>NaN\<close>.
\<close>

theorem recurringPrice_rounding_counterexample:
  "downpayment (projr (getSubscriptionPricing (ex_env 0 ex_store) ex_util
       (Some (ex_input None None (Some 1)))
       (Some (ex_variant 1 9007199254740994 ''monthly'')))) = num 1
   \<and> recurringPrice (projr (getSubscriptionPricing (ex_env 0 ex_store) ex_util
       (Some (ex_input None None (Some 1)))
       (Some (ex_variant 1 9007199254740994 ''monthly'')))) = num 9007199254740992
   \<and> recurringPrice (projr (getSubscriptionPricing (ex_env 0 ex_store) ex_util
       (Some (ex_input None None (Some 1)))
       (Some (ex_variant 1 9007199254740994 ''monthly'')))) \<noteq> num (9007199254740994 - 1)
   \<and> recurringPrice (projr (getSubscriptionPricing (ex_env 0 ex_store) ex_util None
       (Some (ex_variant 1 1000 ''zero'')))) = NaN"
  by (simp add: pricing_defs ex_defs js_defs Let_def round64_tie)

text \<open>
  C4, amended. With equal intervals and \<open>billingCount = durationCount\<close> other than 0,
  and an integer price and downpayment that a double holds exactly together with their
  difference (magnitudes up to \<open>2 ^ 53\<close>, which covers every 32-bit amount), the
  calculator returns a result whose recurring price is exactly
  \<open>variantPrice - downpayment\<close>.
\<close>

theorem recurringPrice_equal_counts:
  assumes "resolveVariant e input v = Inr variant"
    and "getSchedule (schedules e) variant = Inr s"
    and "billingInterval s = durationInterval s"
    and "billingCount s = durationCount s"
    and "billingCount s \<noteq> 0"
    and "effectiveDownpayment input s = num d"
    and "\<bar>price variant\<bar> \<le> 2 ^ 53" and "\<bar>d\<bar> \<le> 2 ^ 53"
    and "\<bar>price variant - d\<bar> \<le> 2 ^ 53"
  shows "\<exists>r. getSubscriptionPricing e u input v = Inr r
             \<and> downpayment r = num d
             \<and> recurringPrice r = num (price variant - d)"
proof -
  obtain r where r: "getSubscriptionPricing e u input v = Inr r"
      "downpayment r = effectiveDownpayment input s"
      "recurringPrice r = computeRecurringPrice variant (effectiveDownpayment input s) s"
    using pricing_returns [OF assms(1-3)] by blast
  have "recurringPrice r = num (price variant - d)"
    using r(3) recurringPrice_unit_ratio [OF assms(4,5,8,9)] by (simp add: assms(6))
  with r(1,2) assms(6) show ?thesis by auto
qed

theorem recurringPrice_equal_counts_witness:
  "\<exists>r. getSubscriptionPricing (ex_env 0 ex_store) ex_util
           (Some (ex_input (Some (IdNumber 1)) None (Some 2000))) None = Inr r
       \<and> downpayment r = num 2000 \<and> recurringPrice r = num (12000 - 2000)"
  using recurringPrice_equal_counts [of "ex_env 0 ex_store"
      "Some (ex_input (Some (IdNumber 1)) None (Some 2000))" None
      "ex_variant 1 12000 ''monthly''" "ex_schedule ''monthly'' Month 1 Month 1 0" 2000 ex_util]
  by (simp add: resolveVariant_def getSchedule_def effectiveDownpayment_def num_def ex_defs)

text \<open>
  C5. The calculator fails, with no result, with the input error when it is given
  neither a variant nor a usable \<open>productVariantId\<close>; with the not-found error when
  no variant is stored under the id; with the no-schedule-found error when no
  configured schedule has the name the variant asks for. Each error is the outcome of
  the call itself: nothing is tried again.
\<close>

theorem pricing_errors:
  "(v = None \<and>
      (case input of
         None \<Rightarrow> True
       | Some i \<Rightarrow> (case productVariantId i of None \<Rightarrow> True | Some pid \<Rightarrow> \<not> truthy_id pid))
      \<longrightarrow> getSubscriptionPricing e u input v = Inl Error_VariantOrIdNeeded)
   \<and> (v = None \<and> input = Some i \<and> productVariantId i = Some pid \<and> truthy_id pid
        \<and> findOne e pid = None
      \<longrightarrow> getSubscriptionPricing e u input v = Inl (UserInputError_NoVariantFound pid))
   \<and> (resolveVariant e input v = Inr variant
        \<and> (\<forall>s \<in> set (schedules e). Some (schedule_name s) \<noteq> subscriptionSchedule variant)
      \<longrightarrow> getSubscriptionPricing e u input v
            = Inl (Error_NoScheduleFound (subscriptionSchedule variant)))"
proof (intro conjI impI)
  assume "v = None \<and>
      (case input of
         None \<Rightarrow> True
       | Some i \<Rightarrow> (case productVariantId i of None \<Rightarrow> True | Some pid \<Rightarrow> \<not> truthy_id pid))"
  then have "resolveVariant e input v = Inl Error_VariantOrIdNeeded"
    by (auto simp: resolveVariant_def split: option.splits)
  then show "getSubscriptionPricing e u input v = Inl Error_VariantOrIdNeeded"
    by (simp add: getSubscriptionPricing_def)
next
  assume "v = None \<and> input = Some i \<and> productVariantId i = Some pid \<and> truthy_id pid
        \<and> findOne e pid = None"
  then have "resolveVariant e input v = Inl (UserInputError_NoVariantFound pid)"
    by (simp add: resolveVariant_def)
  then show "getSubscriptionPricing e u input v = Inl (UserInputError_NoVariantFound pid)"
    by (simp add: getSubscriptionPricing_def)
next
  assume a: "resolveVariant e input v = Inr variant
        \<and> (\<forall>s \<in> set (schedules e). Some (schedule_name s) \<noteq> subscriptionSchedule variant)"
  then have "find (\<lambda>s. Some (schedule_name s) = subscriptionSchedule variant) (schedules e) = None"
    by (simp add: find_None_iff)
  then have "getSchedule (schedules e) variant = Inl (Error_NoScheduleFound (subscriptionSchedule variant))"
    by (simp add: getSchedule_def)
  with a show "getSubscriptionPricing e u input v
            = Inl (Error_NoScheduleFound (subscriptionSchedule variant))"
    by (simp add: getSubscriptionPricing_def)
qed

theorem pricing_errors_witness:
  "getSubscriptionPricing (ex_env 0 ex_store) ex_util (Some (ex_input None None (Some 100))) None
     = Inl Error_VariantOrIdNeeded
   \<and> getSubscriptionPricing (ex_env 0 ex_store) ex_util
       (Some (ex_input (Some (IdNumber 9)) None None)) None
     = Inl (UserInputError_NoVariantFound (IdNumber 9))
   \<and> getSubscriptionPricing (ex_env 0 ex_store) ex_util None
       (Some (ex_variant 1 12000 ''weekly''))
     = Inl (Error_NoScheduleFound (Some ''weekly''))"
  using pricing_errors [of None "Some (ex_input None None (Some 100))" "ex_env 0 ex_store" ex_util]
    pricing_errors [of None "Some (ex_input (Some (IdNumber 9)) None None)" "ex_env 0 ex_store"
      ex_util "ex_input (Some (IdNumber 9)) None None" "IdNumber 9"]
    pricing_errors [of "Some (ex_variant 1 12000 ''weekly'')" None "ex_env 0 ex_store" ex_util _ _
      "ex_variant 1 12000 ''weekly''"]
  by (simp add: resolveVariant_def ex_defs)

text \<open>
  C6, as stated: \<open>billingsPerDuration\<close> is an integer division that truncates. It is
  not: for \<open>durationCount = 3\<close> and \<open>billingCount = 2\<close> the ratio is \<open>3 / 2\<close>, not 1,
  and the recurring price for a price of 1000 and a downpayment of 300 is
  \<open>floor (1000 - 300 / 1.5) = 800\<close>, where the truncated ratio would give 700.
\<close>

theorem billingsPerDuration_fraction_counterexample:
  "billingsPerDuration (ex_schedule ''three-by-two'' Month 2 Month 3 300) = Fin (3 / 2)
   \<and> billingsPerDuration (ex_schedule ''three-by-two'' Month 2 Month 3 300) \<noteq> num (3 div 2)
   \<and> recurringPrice (projr (getSubscriptionPricing (ex_env 0 ex_store) ex_util None
         (Some (ex_variant 1 1000 ''three-by-two'')))) = num 800
   \<and> js_floor (js_sub (num 1000) (js_div (num 300) (num (3 div 2)))) = num 700"
  by (simp add: pricing_defs ex_defs js_defs Let_def round64_three_halves)

text \<open>
  C6, amended. \<open>billingsPerDuration\<close> is the quotient \<open>durationCount / billingCount\<close> of
  JavaScript numbers, the double nearest to the ratio, and is not truncated: for counts
  within the exact integer range and a \<open>billingCount\<close> other than 0 it is an integer
  only when \<open>billingCount\<close> divides \<open>durationCount\<close>, and then it is the quotient.
  There is no remainder check and no rejection: with equal intervals the calculator
  returns a result, its recurring price computed in double arithmetic with that ratio.
\<close>

theorem billingsPerDuration_not_truncated:
  assumes "resolveVariant e input v = Inr variant"
    and "getSchedule (schedules e) variant = Inr s"
    and "billingInterval s = durationInterval s"
  shows "(billingCount s \<noteq> 0 \<and> durationCount s \<noteq> 0 \<longrightarrow>
            billingsPerDuration s
              = round64 (of_int (durationCount s) / of_int (billingCount s)))
         \<and> (billingCount s \<noteq> 0 \<and> \<bar>durationCount s\<bar> < 2 ^ 53 \<and> \<bar>billingCount s\<bar> \<le> 2 ^ 53 \<longrightarrow>
              (js_is_integer (billingsPerDuration s) \<longleftrightarrow> billingCount s dvd durationCount s)
              \<and> (billingCount s dvd durationCount s \<and> durationCount s \<noteq> 0 \<longrightarrow>
                   billingsPerDuration s = num (durationCount s div billingCount s)))
         \<and> (\<exists>r. getSubscriptionPricing e u input v = Inr r
                \<and> recurringPrice r =
                    js_floor (js_sub (num (price variant))
                                (js_div (downpayment r) (billingsPerDuration s))))"
proof (intro conjI impI)
  assume "billingCount s \<noteq> 0 \<and> durationCount s \<noteq> 0"
  then show "billingsPerDuration s
               = round64 (of_int (durationCount s) / of_int (billingCount s))"
    by (simp add: billingsPerDuration_def js_div_def num_def)
next
  assume a: "billingCount s \<noteq> 0 \<and> \<bar>durationCount s\<bar> < 2 ^ 53 \<and> \<bar>billingCount s\<bar> \<le> 2 ^ 53"
  then have dc: "\<bar>durationCount s\<bar> \<le> 2 ^ 53" by simp
  show "js_is_integer (billingsPerDuration s) \<longleftrightarrow> billingCount s dvd durationCount s"
    using a js_div_num_divisible(1) [of "billingCount s" "durationCount s", OF _ dc]
      js_div_num_fraction [of "billingCount s" "durationCount s"]
    unfolding billingsPerDuration_def by blast
  assume "billingCount s dvd durationCount s \<and> durationCount s \<noteq> 0"
  then show "billingsPerDuration s = num (durationCount s div billingCount s)"
    using a js_div_num_divisible(2) [of "billingCount s" "durationCount s", OF _ dc]
    unfolding billingsPerDuration_def by blast
next
  show "\<exists>r. getSubscriptionPricing e u input v = Inr r
                \<and> recurringPrice r =
                    js_floor (js_sub (num (price variant))
                                (js_div (downpayment r) (billingsPerDuration s)))"
    using pricing_returns [OF assms, of u] by (auto simp: computeRecurringPrice_def)
qed

theorem billingsPerDuration_not_truncated_witness:
  "billingsPerDuration (ex_schedule ''three-by-two'' Month 2 Month 3 300) = round64 (3 / 2)
   \<and> \<not> js_is_integer (billingsPerDuration (ex_schedule ''three-by-two'' Month 2 Month 3 300))
   \<and> \<not> (2::int) dvd 3
   \<and> billingsPerDuration (ex_schedule ''half-year'' Month 1 Month 6 6000) = num 6
   \<and> (\<exists>r. getSubscriptionPricing (ex_env 0 ex_store) ex_util None
             (Some (ex_variant 1 1000 ''three-by-two'')) = Inr r
          \<and> recurringPrice r = num 800)"
  using billingsPerDuration_not_truncated [of "ex_env 0 ex_store" None
      "Some (ex_variant 1 1000 ''three-by-two'')" "ex_variant 1 1000 ''three-by-two''"
      "ex_schedule ''three-by-two'' Month 2 Month 3 300" ex_util]
    billingsPerDuration_not_truncated [of "ex_env 0 ex_store" None
      "Some (ex_variant 1 1000 ''half-year'')" "ex_variant 1 1000 ''half-year''"
      "ex_schedule ''half-year'' Month 1 Month 6 6000" ex_util]
  by (simp add: pricing_defs ex_defs js_defs Let_def round64_three_halves)

text \<open>
  C7. Every result of the calculator satisfies \<open>amountDueNow = downpayment +
  totalProratedAmount\<close> and \<open>totalProratedAmount = proratedDays * dayRate\<close>, on its own
  fields.
\<close>

theorem amountDueNow_sum:
  assumes "getSubscriptionPricing e u input v = Inr r"
  shows "amountDueNow r = js_add (downpayment r) (totalProratedAmount r)
         \<and> totalProratedAmount r = js_mul (proratedDays r) (dayRate r)"
  using assms
  by (auto simp: getSubscriptionPricing_def Let_def split: sum.splits if_splits)

theorem amountDueNow_sum_witness:
  "getSubscriptionPricing (ex_env 864000000 ex_store) ex_util None
      (Some (ex_variant 1 12000 ''half-year''))
   = Inr \<lparr> downpayment = Fin 6000, totalProratedAmount = Fin 8000, proratedDays = Fin 20,
           dayRate = Fin 400, recurringPrice = Fin 11000, interval = Month,
           intervalCount = Fin 1, amountDueNow = Fin 14000,
           subscriptionStartDate = 2592000000 \<rparr>
   \<and> Fin 14000 = js_add (Fin 6000) (Fin 8000) \<and> Fin 8000 = js_mul (Fin 20) (Fin 400)"
proof -
  have run: "getSubscriptionPricing (ex_env 864000000 ex_store) ex_util None
      (Some (ex_variant 1 12000 ''half-year''))
   = Inr \<lparr> downpayment = Fin 6000, totalProratedAmount = Fin 8000, proratedDays = Fin 20,
           dayRate = Fin 400, recurringPrice = Fin 11000, interval = Month,
           intervalCount = Fin 1, amountDueNow = Fin 14000,
           subscriptionStartDate = 2592000000 \<rparr>"
    by (simp add: pricing_defs ex_defs js_defs Let_def)
  from amountDueNow_sum [OF run] run show ?thesis by simp
qed

text \<open>
  C8, as stated: \<open>proratedDays\<close> is at least 0 for every \<open>now\<close> on or before the
  computed start date. With \<open>calendarDaysBetween\<close> for the helper it fails when the
  input carries a start date after the computed one, since the days are then counted
  from the input's date: now on day 10, the start on day 30, the input's date on day 61
  give \<open>- 31\<close> days.
\<close>

theorem proratedDays_override_counterexample:
  "now (ex_env 864000000 ex_store)
     \<le> subscriptionStartDate (projr (getSubscriptionPricing (ex_env 864000000 ex_store) ex_util
           (Some (ex_input None (Some 5270400000) None)) (Some (ex_variant 1 12000 ''monthly''))))
   \<and> proratedDays (projr (getSubscriptionPricing (ex_env 864000000 ex_store) ex_util
           (Some (ex_input None (Some 5270400000) None)) (Some (ex_variant 1 12000 ''monthly''))))
       = Fin (- 31)
   \<and> \<not> js_nonneg (proratedDays (projr (getSubscriptionPricing (ex_env 864000000 ex_store) ex_util
           (Some (ex_input None (Some 5270400000) None)) (Some (ex_variant 1 12000 ''monthly'')))))"
  by (simp add: pricing_defs ex_defs js_defs Let_def)

text \<open>
  C8, amended. With \<open>calendarDaysBetween\<close> for the helper: when the date the days are
  counted from (the input's start date when it has one, now otherwise) is on or before
  the computed start date, \<open>proratedDays\<close> is at least 0, and \<open>totalProratedAmount\<close>
  is at least 0 for a finite day rate that is at least 0.
\<close>

theorem proratedDays_nonneg:
  assumes "getDaysUntilNextStartDate u = calendarDaysBetween"
    and "getSubscriptionPricing e u input v = Inr r"
    and "(case (case input of None \<Rightarrow> None | Some i \<Rightarrow> input_startDate i) of
            None \<Rightarrow> now e | Some d \<Rightarrow> d) \<le> subscriptionStartDate r"
  shows "js_nonneg (proratedDays r)
         \<and> (\<forall>q. dayRate r = Fin q \<and> 0 \<le> q \<longrightarrow> js_nonneg (totalProratedAmount r))"
proof -
  from calendarDaysBetween_nonneg [OF assms(3)] pricing_days [OF assms(2)] assms(1)
  obtain k where k: "proratedDays r = Fin k" "0 \<le> k"
    and total: "totalProratedAmount r = js_mul (proratedDays r) (dayRate r)"
    by auto
  show ?thesis using k total js_mul_nonneg [OF k(2)] by auto
qed

theorem proratedDays_nonneg_witness:
  "js_nonneg (proratedDays (projr (getSubscriptionPricing (ex_env 864000000 ex_store) ex_util
       None (Some (ex_variant 1 12000 ''monthly'')))))
   \<and> js_nonneg (totalProratedAmount (projr (getSubscriptionPricing (ex_env 864000000 ex_store)
       ex_util None (Some (ex_variant 1 12000 ''monthly'')))))"
  using proratedDays_nonneg [of ex_util "ex_env 864000000 ex_store" None
      "Some (ex_variant 1 12000 ''monthly'')"
      "projr (getSubscriptionPricing (ex_env 864000000 ex_store) ex_util
       None (Some (ex_variant 1 12000 ''monthly'')))"]
  by (simp add: pricing_defs ex_defs js_defs Let_def)

section \<open>The webhook handler and the subscriptions\<close>

text \<open>
  C9. For a webhook whose type is not \<open>setup_intent.succeeded\<close> the handler returns
  normally, and the world it leaves is the one it found with one info line added to
  the log: no job is queued, no order changes state, no payment is added.
\<close>

theorem other_events_ignored:
  assumes "event_type ev \<noteq> ''setup_intent.succeeded''"
  shows "handlePaymentCompleteEvent svc ev signature rawBodyPayload w
           = (Inr (), w @ [LoggerInfo (Log_NotProcessing (event_type ev))])
         \<and> filter (\<lambda>x. \<not> isLogLine x)
              (snd (handlePaymentCompleteEvent svc ev signature rawBodyPayload w))
           = filter (\<lambda>x. \<not> isLogLine x) w"
  using assms by (simp add: handlePaymentCompleteEvent_def Let_def)

theorem other_events_ignored_witness:
  "event_type (ex_webhook ''payment_intent.succeeded'') \<noteq> ''setup_intent.succeeded''
   \<and> handlePaymentCompleteEvent ex_svc (ex_webhook ''payment_intent.succeeded'')
        (Some ''valid'') ''body'' []
      = (Inr (), [LoggerInfo (Log_NotProcessing ''payment_intent.succeeded'')])"
proof -
  have h: "event_type (ex_webhook ''payment_intent.succeeded'') \<noteq> ''setup_intent.succeeded''"
    by (simp add: ex_webhook_def)
  show ?thesis
    using h other_events_ignored [OF h, of ex_svc "Some ''valid''" "''body''" "[]"]
    by (simp add: ex_webhook_def)
qed

text \<open>
  C10. When \<open>createSubscriptions\<close> completes for an order, the subscriptions it has made
  at Stripe are, line by line in the order of the order's lines: for a line whose
  computed pricing has a downpayment of 0 exactly one subscription, the recurring one
  with proration; for a line whose downpayment is not 0 exactly two, the recurring one
  and then a downpayment subscription without proration whose interval and count are
  the schedule's \<open>durationInterval\<close> and \<open>durationCount\<close>. Nothing else is made.
\<close>

theorem createSubscriptions_per_line:
  assumes "createSubscriptions svc c orderCode custId pmId w = (Inr (), w')"
  shows "\<exists>ord prodId reqss.
           findOneByCode svc w c orderCode = Some ord
         \<and> createdSubscriptions w' = createdSubscriptions w @ concat reqss
         \<and> list_all2 (madeForLine svc ord custId pmId prodId) (order_lines ord) reqss"
proof -
  from assms obtain ord where ord: "findOneByCode svc w c orderCode = Some ord"
    by (auto simp: createSubscriptions_def split: option.splits)
  from assms ord obtain handler w1 where
    h: "getStripeHandler svc c (order_id ord) w = (Inr handler, w1)"
    by (auto simp: createSubscriptions_def split: sum.splits prod.splits)
  have w1: "w1 = w" by (rule getStripeHandler_world [OF h])
  from assms ord h w1 obtain prodId name where
    loop: "createSubscriptionsLoop svc c ord (stripeClient handler) custId pmId prodId
             (order_lines ord) (w @ [ProductCreated name prodId]) = (Inr (), w')"
    by (auto simp: createSubscriptions_def Let_def split: sum.splits option.splits)
  from loop_subscriptions [OF loop] obtain reqss where
    "createdSubscriptions w'
       = createdSubscriptions (w @ [ProductCreated name prodId]) @ concat reqss"
    "list_all2 (madeForLine svc ord custId pmId prodId) (order_lines ord) reqss"
    by blast
  then show ?thesis using ord by (auto simp: createdSubscriptions_append)
qed

theorem createSubscriptions_per_line_witness:
  "fst (createSubscriptions ex_svc ex_ctx ''ORD1'' ''cus_1'' ''pm_1'' []) = Inr ()
   \<and> map amount (createdSubscriptions
        (snd (createSubscriptions ex_svc ex_ctx ''ORD1'' ''cus_1'' ''pm_1'' [])))
     = [num 11000, num 6000, num 12000]
   \<and> map proration (createdSubscriptions
        (snd (createSubscriptions ex_svc ex_ctx ''ORD1'' ''cus_1'' ''pm_1'' [])))
     = [True, False, True]
   \<and> map sub_intervalCount (createdSubscriptions
        (snd (createSubscriptions ex_svc ex_ctx ''ORD1'' ''cus_1'' ''pm_1'' [])))
     = [num 1, num 6, num 1]"
proof -
  define W where "W = snd (createSubscriptions ex_svc ex_ctx ''ORD1'' ''cus_1'' ''pm_1'' [])"
  have ok: "fst (createSubscriptions ex_svc ex_ctx ''ORD1'' ''cus_1'' ''pm_1'' []) = Inr ()"
    by (simp add: createSubscriptions_def getStripeHandler_def argValue_def world_defs
          ex_world_defs pricing_defs ex_defs js_defs Let_def)
  then have run: "createSubscriptions ex_svc ex_ctx ''ORD1'' ''cus_1'' ''pm_1'' [] = (Inr (), W)"
    unfolding W_def by (metis prod.collapse)
  have p1: "getSubscriptionPricing (env_of ex_svc wi) (svc_util ex_svc) None
              (Some (ex_variant 1 12000 ''half-year''))
            = Inr \<lparr> downpayment = Fin 6000, totalProratedAmount = Fin 8000, proratedDays = Fin 20,
                    dayRate = Fin 400, recurringPrice = Fin 11000, interval = Month,
                    intervalCount = Fin 1, amountDueNow = Fin 14000,
                    subscriptionStartDate = 2592000000 \<rparr>" for wi
    by (simp add: world_defs ex_world_defs pricing_defs ex_defs js_defs Let_def)
  have p2: "getSubscriptionPricing (env_of ex_svc wi) (svc_util ex_svc) None
              (Some (ex_variant 2 12000 ''monthly''))
            = Inr \<lparr> downpayment = Fin 0, totalProratedAmount = Fin 8000, proratedDays = Fin 20,
                    dayRate = Fin 400, recurringPrice = Fin 12000, interval = Month,
                    intervalCount = Fin 1, amountDueNow = Fin 8000,
                    subscriptionStartDate = 2592000000 \<rparr>" for wi
    by (simp add: world_defs ex_world_defs pricing_defs ex_defs js_defs Let_def)
  have s1: "getSchedule (svc_schedules ex_svc) (ex_variant 1 12000 ''half-year'')
            = Inr (ex_schedule ''half-year'' Month 1 Month 6 6000)"
    by (simp add: getSchedule_def ex_svc_def ex_defs)
  from createSubscriptions_per_line [OF run] obtain ord prodId reqss where
    ord: "findOneByCode ex_svc [] ex_ctx ''ORD1'' = Some ord"
    and made: "createdSubscriptions W = createdSubscriptions [] @ concat reqss"
    and each: "list_all2 (madeForLine ex_svc ord ''cus_1'' ''pm_1'' prodId) (order_lines ord) reqss"
    by blast
  have ord_eq: "ord = ex_order" using ord by (simp add: ex_svc_def)
  have lines: "order_lines ex_order
                 = [\<lparr> productVariant = ex_variant 1 12000 ''half-year'' \<rparr>,
                    \<lparr> productVariant = ex_variant 2 12000 ''monthly'' \<rparr>]"
    by (simp add: ex_order_def)
  from each obtain q1 q2 where
    reqss: "reqss = [q1, q2]"
    and m1: "madeForLine ex_svc ex_order ''cus_1'' ''pm_1'' prodId
               \<lparr> productVariant = ex_variant 1 12000 ''half-year'' \<rparr> q1"
    and m2: "madeForLine ex_svc ex_order ''cus_1'' ''pm_1'' prodId
               \<lparr> productVariant = ex_variant 2 12000 ''monthly'' \<rparr> q2"
    unfolding ord_eq lines by (auto simp: list_all2_Cons1)
  from m1 have a1: "map amount q1 = [num 11000, num 6000]"
    and b1: "map proration q1 = [True, False]"
    and c1: "map sub_intervalCount q1 = [num 1, num 6]"
    by (auto simp: p1 s1 num_def recurringRequest_def downpaymentRequest_def ex_schedule_def)
  from m2 have a2: "map amount q2 = [num 12000]"
    and b2: "map proration q2 = [True]"
    and c2: "map sub_intervalCount q2 = [num 1]"
    by (auto simp: p2 num_def recurringRequest_def)
  show ?thesis
    using ok made a1 b1 c1 a2 b2 c2 unfolding W_def [symmetric] reqss by simp
qed

text \<open>
  Whatever the outcome of a turn, failures of the Stripe client included: with a
  downpayment of 0 the turn makes the recurring subscription or none at all, never a
  downpayment subscription.
\<close>

lemma createLineSubscriptions_without_downpayment:
  assumes "createLineSubscriptions svc c ord client custId pmId prodId orderLine p w = (res, w')"
    and "\<not> truthy (downpayment p)"
  shows "createdSubscriptions w' = createdSubscriptions w
         \<or> createdSubscriptions w'
             = createdSubscriptions w @ [recurringRequest ord orderLine custId pmId prodId p]"
  using assms
  by (auto simp: createLineSubscriptions_def logOrderHistory_def Let_def
                 createdSubscriptions_append
           split: sum.splits)

lemma line_without_downpayment:
  assumes "createSubscriptionsForLine svc c ord client custId pmId prodId orderLine w = (res, w')"
    and "getSubscriptionPricing (env_of svc w) (svc_util svc) None
           (Some (productVariant orderLine)) = Inr p"
    and "downpayment p = num 0"
  shows "createdSubscriptions w' = createdSubscriptions w
         \<or> createdSubscriptions w'
             = createdSubscriptions w @ [recurringRequest ord orderLine custId pmId prodId p]"
proof -
  have falsy: "\<not> truthy (downpayment p)"
    using assms(3) by (simp add: num_def)
  obtain res0 w0 where body:
    "createLineSubscriptions svc c ord client custId pmId prodId orderLine p
       (w @ [LoggerInfo (Log_CreatingSubscriptions p)]) = (res0, w0)"
    by (cases "createLineSubscriptions svc c ord client custId pmId prodId orderLine p
       (w @ [LoggerInfo (Log_CreatingSubscriptions p)])") blast
  have same: "createdSubscriptions w' = createdSubscriptions w0"
    using assms(1,2) body
    by (auto simp: createSubscriptionsForLine_def logOrderHistory_def
                   createdSubscriptions_append
             split: sum.splits)
  from createLineSubscriptions_without_downpayment [OF body falsy] same
  show ?thesis by (simp add: createdSubscriptions_append)
qed

text \<open>
  Over the whole loop: a run that succeeds has made one subscription for every order
  line and one more for every line whose schedule has a downpayment.
\<close>

lemma per_line_count:
  assumes "createSubscriptionsForLine svc c ord client custId pmId prodId orderLine w
             = (Inr (), w')"
  shows "length (createdSubscriptions w')
           = length (createdSubscriptions w) + (if lineHasDownpayment svc orderLine then 2 else 1)"
proof -
  from assms obtain p where
    p: "getSubscriptionPricing (env_of svc w) (svc_util svc) None
          (Some (productVariant orderLine)) = Inr p"
    and body: "createLineSubscriptions svc c ord client custId pmId prodId orderLine p
                 (w @ [LoggerInfo (Log_CreatingSubscriptions p)]) = (Inr (), w')"
    by (auto simp: createSubscriptionsForLine_def split: sum.splits prod.splits)
  obtain s where s: "getSchedule (svc_schedules svc) (productVariant orderLine) = Inr s"
      "downpayment p = num (schedule_downpayment s)"
    using preview_schedule [OF p] by blast
  have "truthy (downpayment p) \<longleftrightarrow> lineHasDownpayment svc orderLine"
    using s by (simp add: lineHasDownpayment_def num_def)
  with createLineSubscriptions_created [OF body] show ?thesis
    by (auto simp: createdSubscriptions_append)
qed

lemma loop_subscriptions_count:
  assumes "createSubscriptionsLoop svc c ord client custId pmId prodId ls w = (Inr (), w')"
  shows "length (createdSubscriptions w')
           = length (createdSubscriptions w) + length ls
             + length (filter (lineHasDownpayment svc) ls)"
  using assms
proof (induction ls arbitrary: w)
  case Nil
  then show ?case by simp
next
  case (Cons l ls)
  from Cons.prems obtain w1 where
    first: "createSubscriptionsForLine svc c ord client custId pmId prodId l w = (Inr (), w1)"
    and rest: "createSubscriptionsLoop svc c ord client custId pmId prodId ls w1 = (Inr (), w')"
    by (auto split: sum.splits prod.splits)
  from per_line_count [OF first] Cons.IH [OF rest] show ?case by simp
qed

end
